theory Spec2Isabelle
  imports Main
begin

section \<open>The EPG aggregation pipeline of merge.py\<close>

text \<open>
  A shallow embedding of \<^verbatim>\<open>src/merge.py\<close>: the fetcher (\<^verbatim>\<open>fetch_epg\<close>), the cached guide
  parser (\<^verbatim>\<open>parse_epg\<close>), the merge loop of \<^verbatim>\<open>main\<close> and the serializer
  (\<^verbatim>\<open>write_to_xml\<close>).

  Python strings are HOL strings: lists of characters from U+0000 to U+00FF. The
  character classes the program uses (\<^verbatim>\<open>\s\<close> of \<^verbatim>\<open>re\<close>, \<^verbatim>\<open>str.strip\<close>) are modelled on
  their members in that range; all other text is passed through unchanged. The
  libraries the program calls (OpenCC, hashlib, ElementTree's parser,
  \<^verbatim>\<open>datetime.strptime\<close>, the \<^verbatim>\<open>%Y\<close> of \<^verbatim>\<open>strftime\<close>, aiohttp) are parameters of the model.
\<close>

subsection \<open>Python dictionaries\<close>

text \<open>
  A \<^verbatim>\<open>dict\<close> keeps its keys in insertion order (\<^verbatim>\<open>write_to_xml\<close> iterates over it), so
  it is an association list with distinct keys: \<^verbatim>\<open>d[k] = v\<close> replaces the value of a
  key in place and appends a new key at the end.
\<close>

fun dict_set :: "('k \<times> 'v) list \<Rightarrow> 'k \<Rightarrow> 'v \<Rightarrow> ('k \<times> 'v) list" where
  "dict_set [] k v = [(k, v)]"
| "dict_set ((k', v') # d) k v = (if k' = k then (k, v) # d else (k', v') # dict_set d k v)"

definition dict_get :: "('k \<times> 'v) list \<Rightarrow> 'k \<Rightarrow> 'v option" where
  "dict_get d k = map_of d k"

definition dict_keys :: "('k \<times> 'v) list \<Rightarrow> 'k list" where
  "dict_keys d = map fst d"

text \<open>\<^verbatim>\<open>d.update(other)\<close>: every item of \<^verbatim>\<open>other\<close>, in its order, is assigned into \<^verbatim>\<open>d\<close>.\<close>

fun dict_update :: "('k \<times> 'v) list \<Rightarrow> ('k \<times> 'v) list \<Rightarrow> ('k \<times> 'v) list" where
  "dict_update d [] = d"
| "dict_update d ((k, v) # other) = dict_update (dict_set d k v) other"

text \<open>
  \<^verbatim>\<open>defaultdict(list)\<close>: reading a missing key gives the empty list;
  \<^verbatim>\<open>d[k].append(x)\<close> and \<^verbatim>\<open>d[k].extend(xs)\<close> create the key when it is missing.
\<close>

definition dd_get :: "('k \<times> 'v list) list \<Rightarrow> 'k \<Rightarrow> 'v list" where
  "dd_get d k = (case map_of d k of None \<Rightarrow> [] | Some xs \<Rightarrow> xs)"

definition dd_append :: "('k \<times> 'v list) list \<Rightarrow> 'k \<Rightarrow> 'v \<Rightarrow> ('k \<times> 'v list) list" where
  "dd_append d k x = dict_set d k (dd_get d k @ [x])"

definition dd_extend :: "('k \<times> 'v list) list \<Rightarrow> 'k \<Rightarrow> 'v list \<Rightarrow> ('k \<times> 'v list) list" where
  "dd_extend d k xs = dict_set d k (dd_get d k @ xs)"

subsection \<open>ElementTree elements\<close>

text \<open>
  An \<^verbatim>\<open>xml.etree.ElementTree.Element\<close>: tag, attribute dictionary, text (\<^verbatim>\<open>None\<close> when the
  element has no character data) and children in document order.
\<close>

datatype element =
  Element (tag: string) (attrib: "(string \<times> string) list") (elem_text: "string option")
    (children: "element list")

definition elem_get :: "element \<Rightarrow> string \<Rightarrow> string option" where
  "elem_get e k = map_of (attrib e) k"

definition elem_set :: "element \<Rightarrow> string \<Rightarrow> string \<Rightarrow> element" where
  "elem_set e k v = Element (tag e) (dict_set (attrib e) k v) (elem_text e) (children e)"

definition elem_find :: "element \<Rightarrow> string \<Rightarrow> element option" where
  "elem_find e t = List.find (\<lambda>c. tag c = t) (children e)"

definition elem_findall :: "element \<Rightarrow> string \<Rightarrow> element list" where
  "elem_findall e t = filter (\<lambda>c. tag c = t) (children e)"

definition elem_append :: "element \<Rightarrow> element \<Rightarrow> element" where
  "elem_append parent c = Element (tag parent) (attrib parent) (elem_text parent) (children parent @ [c])"

subsection \<open>Timestamps\<close>

text \<open>
  An aware \<^verbatim>\<open>datetime\<close>: the wall-clock fields and the offset of its \<^verbatim>\<open>tzinfo\<close>
  (\<^verbatim>\<open>gmtoff\<close> in seconds, \<^verbatim>\<open>gmtoff_fraction\<close> in microseconds, as \<^verbatim>\<open>_strptime\<close> names them).
\<close>

record datetime =
  year :: nat
  month :: nat
  day :: nat
  hour :: nat
  minute :: nat
  second :: nat
  gmtoff :: int
  gmtoff_fraction :: int

definition digit_char :: "nat \<Rightarrow> char" where
  "digit_char n = ''0123456789'' ! (n mod 10)"

definition pad2 :: "nat \<Rightarrow> string" where
  "pad2 n = [digit_char (n div 10), digit_char n]"

subsection \<open>The libraries the program calls\<close>

text \<open>
  \<^item> \<open>cc_convert\<close>: \<^verbatim>\<open>OpenCC('t2s').convert\<close>; \<open>None\<close> when it raises.
  \<^item> \<open>md5_hexdigest\<close>: \<^verbatim>\<open>hashlib.md5(s.encode('utf-8')).hexdigest()\<close>.
  \<^item> \<open>fromstring\<close>: \<^verbatim>\<open>ET.fromstring\<close> with a UTF-8 \<^verbatim>\<open>XMLParser\<close>; \<open>None\<close> when it raises
    \<^verbatim>\<open>ET.ParseError\<close>.
  \<^item> \<open>strptime\<close>: \<^verbatim>\<open>datetime.strptime(s, "%Y%m%d%H%M%S%z")\<close>; \<open>None\<close> when it raises
    \<^verbatim>\<open>ValueError\<close>.
  \<^item> \<open>strftime_Y\<close>: what \<^verbatim>\<open>strftime\<close> writes for \<^verbatim>\<open>%Y\<close>, given the year. \<^verbatim>\<open>datetime.strftime\<close>
    hands the format to the \<^verbatim>\<open>strftime\<close> of the C library, and the libraries differ on
    years below 1000: glibc writes 999 as \<^verbatim>\<open>999\<close>, others write \<^verbatim>\<open>0999\<close>.
\<close>

record externals =
  cc_convert :: "string \<Rightarrow> string option"
  md5_hexdigest :: "string \<Rightarrow> string"
  fromstring :: "string \<Rightarrow> element option"
  strptime :: "string \<Rightarrow> datetime option"
  strftime_Y :: "nat \<Rightarrow> string"

text \<open>
  The fields \<^verbatim>\<open>%Y%m%d%H%M%S\<close> of a \<^verbatim>\<open>datetime\<close>: the year as the C library writes it, then
  two zero-padded decimal digits for each of the month, day, hour, minute and second.
\<close>

definition wall_clock :: "externals \<Rightarrow> datetime \<Rightarrow> string" where
  "wall_clock env dt =
     strftime_Y env (year dt) @ pad2 (month dt) @ pad2 (day dt) @
     pad2 (hour dt) @ pad2 (minute dt) @ pad2 (second dt)"

text \<open>
  \<^verbatim>\<open>dt.strftime("%Y%m%d%H%M%S +0800")\<close>: the fields of \<^verbatim>\<open>dt\<close>, then the characters
  \<^verbatim>\<open> +0800\<close> of the format itself. The format has no \<^verbatim>\<open>%z\<close>: the offset of \<^verbatim>\<open>dt\<close> is not
  read.
\<close>

definition strftime_0800 :: "externals \<Rightarrow> datetime \<Rightarrow> string" where
  "strftime_0800 env dt = wall_clock env dt @ '' +0800''"

subsection \<open>transform2_zh_hans, get_content_hash\<close>

text \<open>
  The argument is an attribute value or an element text: a \<^verbatim>\<open>str\<close> or \<^verbatim>\<open>None\<close>, so the
  \<^verbatim>\<open>isinstance\<close> branch is never taken. A conversion that raises returns its input.
\<close>

definition transform2_zh_hans :: "externals \<Rightarrow> string option \<Rightarrow> string option" where
  "transform2_zh_hans env string =
     (case string of
        None \<Rightarrow> None
      | Some s \<Rightarrow> (case cc_convert env s of Some t \<Rightarrow> Some t | None \<Rightarrow> Some s))"

definition get_content_hash :: "externals \<Rightarrow> string \<Rightarrow> string" where
  "get_content_hash env epg_content = md5_hexdigest env epg_content"

subsection \<open>Whitespace\<close>

text \<open>
  The characters for which \<^verbatim>\<open>str.isspace\<close> holds, among those from U+0000 to U+00FF that
  the type \<open>char\<close> has; \<^verbatim>\<open>\s\<close> matches the same ones. Besides the ASCII ones these are
  U+0085 (next line) and U+00A0 (no-break space).
\<close>

definition whitespace :: string where
  "whitespace = [CHR 0x09, CHR 0x0A, CHR 0x0B, CHR 0x0C, CHR 0x0D,
                 CHR 0x1C, CHR 0x1D, CHR 0x1E, CHR 0x1F, CHR 0x20, CHR 0x85, CHR 0xA0]"

definition is_space :: "char \<Rightarrow> bool" where
  "is_space c \<longleftrightarrow> c \<in> set whitespace"

text \<open>\<^verbatim>\<open>s.strip()\<close>\<close>

definition py_strip :: "string \<Rightarrow> string" where
  "py_strip s = rev (dropWhile is_space (rev (dropWhile is_space s)))"

text \<open>\<^verbatim>\<open>re.sub(r'\s+', '', s)\<close>: every run of whitespace is deleted.\<close>

definition re_sub_spaces :: "string \<Rightarrow> string" where
  "re_sub_spaces s = filter (\<lambda>c. \<not> is_space c) s"

subsection \<open>parse_epg\<close>

type_synonym channels = "(string \<times> string option) list"
type_synonym programmes = "(string \<times> element list) list"
type_synonym epg = "channels \<times> programmes"

text \<open>The channel loop (lines 84 to 89): one iteration, then the loop.\<close>

definition channel_step :: "externals \<Rightarrow> channels \<Rightarrow> element \<Rightarrow> channels" where
  "channel_step env channels channel =
     (case transform2_zh_hans env (elem_get channel ''id'') of
        None \<Rightarrow> channels
      | Some channel_id \<Rightarrow>
          if channel_id = [] then channels
          else
            let display_name_elem = elem_find channel ''display-name'';
                display_name = transform2_zh_hans env
                  (case display_name_elem of Some d \<Rightarrow> elem_text d | None \<Rightarrow> Some [])
            in dict_set channels channel_id display_name)"

fun channel_loop :: "externals \<Rightarrow> channels \<Rightarrow> element list \<Rightarrow> channels" where
  "channel_loop env channels [] = channels"
| "channel_loop env channels (channel # rest) =
     channel_loop env (channel_step env channels channel) rest"

text \<open>
  The body of the programme loop (lines 93 to 133) up to the append: \<open>None\<close> is
  \<^verbatim>\<open>continue\<close>, \<open>Some (channel_id, programme_elem)\<close> the new element and the key it is
  appended under.
\<close>

definition new_programme :: "externals \<Rightarrow> element \<Rightarrow> (string \<times> element) option" where
  "new_programme env programme =
     (case transform2_zh_hans env (elem_get programme ''channel'') of
        None \<Rightarrow> None
      | Some channel_id \<Rightarrow>
          if channel_id = [] then None
          else
            (case (elem_get programme ''start'', elem_get programme ''stop'') of
               (Some start_time, Some stop_time) \<Rightarrow>
                 if start_time = [] \<or> stop_time = [] then None
                 else
                   (case (strptime env (re_sub_spaces start_time),
                          strptime env (re_sub_spaces stop_time)) of
                      (Some channel_start, Some channel_stop) \<Rightarrow>
                        (case elem_find programme ''title'' of
                           None \<Rightarrow> None
                         | Some title_elem \<Rightarrow>
                             (case elem_text title_elem of
                                None \<Rightarrow> None
                              | Some title_text \<Rightarrow>
                                  let channel_title = transform2_zh_hans env (Some title_text);
                                      programme_elem =
                                        Element ''programme''
                                          [(''channel'', channel_id),
                                           (''start'', strftime_0800 env channel_start),
                                           (''stop'', strftime_0800 env channel_stop)]
                                          None
                                          [Element ''title'' [] channel_title []];
                                      programme_elem =
                                        (case elem_find programme ''desc'' of
                                           None \<Rightarrow> programme_elem
                                         | Some desc_elem \<Rightarrow>
                                             (case elem_text desc_elem of
                                                None \<Rightarrow> programme_elem
                                              | Some desc_text \<Rightarrow>
                                                  elem_append programme_elem
                                                    (Element ''desc'' []
                                                       (transform2_zh_hans env (Some desc_text)) [])))
                                  in Some (channel_id, programme_elem)))
                    | _ \<Rightarrow> None)
             | _ \<Rightarrow> None))"

definition programme_step :: "externals \<Rightarrow> programmes \<Rightarrow> element \<Rightarrow> programmes" where
  "programme_step env programmes programme =
     (case new_programme env programme of
        None \<Rightarrow> programmes
      | Some (channel_id, programme_elem) \<Rightarrow> dd_append programmes channel_id programme_elem)"

fun programme_loop :: "externals \<Rightarrow> programmes \<Rightarrow> element list \<Rightarrow> programmes" where
  "programme_loop env programmes [] = programmes"
| "programme_loop env programmes (programme # rest) =
     programme_loop env (programme_step env programmes programme) rest"

text \<open>Lines 72, 73 and 83 to 135: what \<^verbatim>\<open>parse_epg\<close> builds from a parsed document.\<close>

definition parse_root :: "externals \<Rightarrow> element \<Rightarrow> epg" where
  "parse_root env root =
     (channel_loop env [] (elem_findall root ''channel''),
      programme_loop env [] (elem_findall root ''programme''))"

text \<open>
  The process-wide \<^verbatim>\<open>epg_cache\<close>, and a counter of the calls of \<^verbatim>\<open>ET.fromstring\<close>: the
  program has no such counter, it records how often the parsing work is entered (every
  call of \<^verbatim>\<open>transform2_zh_hans\<close> in \<^verbatim>\<open>parse_epg\<close> comes after that call).
\<close>

record pstate =
  epg_cache :: "string \<Rightarrow> epg option"
  parse_count :: nat

definition init_state :: pstate where
  "init_state = \<lparr>epg_cache = Map.empty, parse_count = 0\<rparr>"

definition parse_epg :: "externals \<Rightarrow> string option \<Rightarrow> bool \<Rightarrow> pstate \<Rightarrow> epg \<times> pstate" where
  "parse_epg env epg_content use_cache s =
     (case epg_content of
        None \<Rightarrow> (([], []), s)
      | Some content \<Rightarrow>
          if py_strip content = [] then (([], []), s)
          else
            let content_hash = get_content_hash env content in
            (case (if use_cache then epg_cache s content_hash else None) of
               Some cached \<Rightarrow> (cached, s)
             | None \<Rightarrow>
                 let s1 = s\<lparr>parse_count := Suc (parse_count s)\<rparr> in
                 (case fromstring env content of
                    None \<Rightarrow> (([], []), s1)
                  | Some root \<Rightarrow>
                      let result = parse_root env root in
                      (result,
                       if use_cache
                       then s1\<lparr>epg_cache := (epg_cache s1)(content_hash \<mapsto> result)\<rparr>
                       else s1))))"

subsection \<open>The merge loop of main\<close>

text \<open>Lines 230 and 231: every programme list of a source is appended under its key.\<close>

fun extend_all :: "programmes \<Rightarrow> programmes \<Rightarrow> programmes" where
  "extend_all all_programmes [] = all_programmes"
| "extend_all all_programmes ((channel_id, prog_list) # rest) =
     extend_all (dd_extend all_programmes channel_id prog_list) rest"

text \<open>
  Lines 228 to 231, for one parse result: a source whose channel table is empty
  (\<^verbatim>\<open>if channels:\<close>) changes nothing.
\<close>

definition merge_step :: "epg \<Rightarrow> epg \<Rightarrow> epg" where
  "merge_step agg result =
     (case (agg, result) of
        ((all_channels, all_programmes), (channels, programmes)) \<Rightarrow>
          if channels \<noteq> []
          then (dict_update all_channels channels, extend_all all_programmes programmes)
          else (all_channels, all_programmes))"

text \<open>The fold over a sequence of parse results, from the empty aggregate (lines 214, 215).\<close>

definition merge_results :: "epg list \<Rightarrow> epg" where
  "merge_results results = foldl merge_step ([], []) results"

text \<open>
  Lines 221 to 234: an absent document is skipped, every other one is parsed through the
  cache and merged.
\<close>

fun main_loop :: "externals \<Rightarrow> string option list \<Rightarrow> epg \<Rightarrow> pstate \<Rightarrow> epg \<times> pstate" where
  "main_loop env [] agg s = (agg, s)"
| "main_loop env (None # rest) agg s = main_loop env rest agg s"
| "main_loop env (Some epg_content # rest) agg s =
     (case parse_epg env (Some epg_content) True s of
        (result, s') \<Rightarrow> main_loop env rest (merge_step agg result) s')"

subsection \<open>write_to_xml\<close>

text \<open>
  The \<^verbatim>\<open>tv\<close> element that \<^verbatim>\<open>write_to_xml\<close> builds and hands to the serializer:
  \<open>current_time\<close> is the formatted clock reading. Each programme has its \<^verbatim>\<open>channel\<close>
  attribute set to the key it is stored under before it is appended.
\<close>

definition channel_elem :: "string \<times> string option \<Rightarrow> element" where
  "channel_elem item =
     (case item of (channel_id, display_name) \<Rightarrow>
        Element ''channel'' [(''id'', channel_id)] None
          [Element ''display-name'' [(''lang'', ''zh'')] display_name []])"

definition programme_elems :: "string \<times> element list \<Rightarrow> element list" where
  "programme_elems item =
     (case item of (channel_id, prog_list) \<Rightarrow>
        map (\<lambda>prog. elem_set prog ''channel'' channel_id) prog_list)"

definition write_to_xml :: "string \<Rightarrow> channels \<Rightarrow> programmes \<Rightarrow> element" where
  "write_to_xml current_time channels programmes =
     Element ''tv'' [(''date'', current_time)] None
       (map channel_elem channels @ concat (map programme_elems programmes))"

text \<open>
  Lines 214 to 243: the document \<^verbatim>\<open>main\<close> writes for the fetched contents, \<open>None\<close> when
  no channel was parsed and the program exits without output.
\<close>

definition main_output :: "externals \<Rightarrow> string \<Rightarrow> string option list \<Rightarrow> element option" where
  "main_output env current_time epg_contents =
     (case main_loop env epg_contents ([], []) init_state of
        ((all_channels, all_programmes), s) \<Rightarrow>
          if all_channels = [] then None
          else Some (write_to_xml current_time all_channels all_programmes))"

subsection \<open>fetch_epg\<close>

text \<open>
  What a request can do, by the \<^verbatim>\<open>except\<close> clause that catches it:
  \<^verbatim>\<open>aiohttp.ClientError\<close>, \<^verbatim>\<open>asyncio.TimeoutError\<close>, any other \<^verbatim>\<open>Exception\<close>, and a
  \<^verbatim>\<open>BaseException\<close> that is no \<^verbatim>\<open>Exception\<close> (a cancellation, a keyboard interrupt),
  which no clause catches.
\<close>

datatype exn = ClientError | TimeoutError | OtherException | BaseException

datatype 'a outcome = Returns 'a | Raises exn

text \<open>The response of \<^verbatim>\<open>session.get\<close>: its status and what \<^verbatim>\<open>response.text\<close> does.\<close>

record response =
  status :: nat
  body :: "string outcome"

text \<open>The \<^verbatim>\<open>except\<close> clauses of lines 50 to 56.\<close>

definition handle :: "exn \<Rightarrow> exn + string option" where
  "handle e =
     (case e of
        ClientError \<Rightarrow> Inr None
      | TimeoutError \<Rightarrow> Inr None
      | OtherException \<Rightarrow> Inr None
      | BaseException \<Rightarrow> Inl BaseException)"

text \<open>
  \<^verbatim>\<open>raise_for_status\<close> raises \<^verbatim>\<open>ClientResponseError\<close>, a \<^verbatim>\<open>ClientError\<close>, for a status of
  400 or more.
\<close>

definition fetch_epg :: "response outcome \<Rightarrow> exn + string option" where
  "fetch_epg got =
     (case got of
        Raises e \<Rightarrow> handle e
      | Returns r \<Rightarrow>
          if 400 \<le> status r then handle ClientError
          else (case body r of Raises e \<Rightarrow> handle e | Returns t \<Rightarrow> Inr (Some t)))"

text \<open>
  Lines 208 to 212: one task per locator, gathered in the order of the locators. The
  network is a function from the position and the locator of a request to what the
  request does; an exception that leaves a task leaves the gather.
\<close>

fun gather :: "(exn + 'a) list \<Rightarrow> exn + 'a list" where
  "gather [] = Inr []"
| "gather (t # ts) =
     (case t of
        Inl e \<Rightarrow> Inl e
      | Inr x \<Rightarrow> (case gather ts of Inl e \<Rightarrow> Inl e | Inr xs \<Rightarrow> Inr (x # xs)))"

definition fetch_all :: "(nat \<Rightarrow> string \<Rightarrow> response outcome) \<Rightarrow> string list \<Rightarrow> exn + string option list" where
  "fetch_all net urls = gather (map (\<lambda>(i, url). fetch_epg (net i url)) (enumerate 0 urls))"

subsection \<open>datetime.strptime with the format of parse_epg\<close>

text \<open>
  An instance of the \<open>strptime\<close> parameter, after \<^verbatim>\<open>Lib/_strptime.py\<close> of CPython 3.8 to
  3.12, on characters up to U+00FF (the digits of \<^verbatim>\<open>\d\<close> and \<^verbatim>\<open>int\<close> among them are the ASCII
  ones). The format \<^verbatim>\<open>%Y%m%d%H%M%S%z\<close> becomes a regular expression with
  one group per directive; \<^verbatim>\<open>re.match\<close> tries the alternatives from left to right and
  backtracks, so a match is computed as the list of all its ways to succeed, first
  choice first. The theorems below hold for every \<open>strptime\<close>; this instance runs the
  model on concrete documents.
\<close>

datatype rx = Chars string | Seq rx rx | Alt rx rx | Opt rx

text \<open>The inputs left after a match of the expression at the start of \<open>s\<close>, in priority order.\<close>

fun rx_match :: "rx \<Rightarrow> string \<Rightarrow> string list" where
  "rx_match (Chars cs) s = (case s of [] \<Rightarrow> [] | c # r \<Rightarrow> if c \<in> set cs then [r] else [])"
| "rx_match (Seq a b) s = concat (map (rx_match b) (rx_match a s))"
| "rx_match (Alt a b) s = rx_match a s @ rx_match b s"
| "rx_match (Opt a) s = rx_match a s @ [s]"

text \<open>A sequence of groups: the text of every group and the input left, in priority order.\<close>

fun groups_match :: "rx list \<Rightarrow> string \<Rightarrow> (string list \<times> string) list" where
  "groups_match [] s = [([], s)]"
| "groups_match (g # gs) s =
     concat (map (\<lambda>r. map (\<lambda>(found, rest). (take (length s - length r) s # found, rest))
                              (groups_match gs r))
                 (rx_match g s))"

text \<open>
  Bounds on the number of characters a match of an expression uses.
\<close>

fun rx_min :: "rx \<Rightarrow> nat" where
  "rx_min (Chars cs) = 1"
| "rx_min (Seq a b) = rx_min a + rx_min b"
| "rx_min (Alt a b) = min (rx_min a) (rx_min b)"
| "rx_min (Opt a) = 0"

fun rx_max :: "rx \<Rightarrow> nat" where
  "rx_max (Chars cs) = 1"
| "rx_max (Seq a b) = rx_max a + rx_max b"
| "rx_max (Alt a b) = max (rx_max a) (rx_max b)"
| "rx_max (Opt a) = rx_max a"

definition rx_digit :: rx where
  "rx_digit = Chars ''0123456789''"

text \<open>\<^verbatim>\<open>(?P<Y>\d\d\d\d)\<close>\<close>

definition rx_Y :: rx where
  "rx_Y = Seq rx_digit (Seq rx_digit (Seq rx_digit rx_digit))"

text \<open>\<^verbatim>\<open>(?P<m>1[0-2]|0[1-9]|[1-9])\<close>\<close>

definition rx_m :: rx where
  "rx_m = Alt (Seq (Chars ''1'') (Chars ''012''))
         (Alt (Seq (Chars ''0'') (Chars ''123456789''))
              (Chars ''123456789''))"

text \<open>\<^verbatim>\<open>(?P<d>3[0-1]|[1-2]\d|0[1-9]|[1-9]| [1-9])\<close>\<close>

definition rx_d :: rx where
  "rx_d = Alt (Seq (Chars ''3'') (Chars ''01''))
         (Alt (Seq (Chars ''12'') rx_digit)
         (Alt (Seq (Chars ''0'') (Chars ''123456789''))
         (Alt (Chars ''123456789'')
              (Seq (Chars '' '') (Chars ''123456789'')))))"

text \<open>\<^verbatim>\<open>(?P<H>2[0-3]|[0-1]\d|\d)\<close>\<close>

definition rx_H :: rx where
  "rx_H = Alt (Seq (Chars ''2'') (Chars ''0123''))
         (Alt (Seq (Chars ''01'') rx_digit)
              rx_digit)"

text \<open>\<^verbatim>\<open>(?P<M>[0-5]\d|\d)\<close>\<close>

definition rx_M :: rx where
  "rx_M = Alt (Seq (Chars ''012345'') rx_digit) rx_digit"

text \<open>\<^verbatim>\<open>(?P<S>6[0-1]|[0-5]\d|\d)\<close>\<close>

definition rx_S :: rx where
  "rx_S = Alt (Seq (Chars ''6'') (Chars ''01''))
         (Alt (Seq (Chars ''012345'') rx_digit)
              rx_digit)"

text \<open>
  \<^verbatim>\<open>(?P<z>[+-]\d\d:?[0-5]\d(:?[0-5]\d(\.\d{1,6})?)?|(?-i:Z))\<close>; the greedy \<^verbatim>\<open>\d{1,6}\<close> is
  a digit followed by up to five optional ones.
\<close>

definition rx_upto5 :: rx where
  "rx_upto5 =
     Opt (Seq rx_digit (Opt (Seq rx_digit (Opt (Seq rx_digit (Opt (Seq rx_digit (Opt rx_digit))))))))"

definition rx_z :: rx where
  "rx_z =
     Alt (Seq (Chars ''+-'') (Seq rx_digit (Seq rx_digit (Seq (Opt (Chars '':''))
            (Seq (Chars ''012345'') (Seq rx_digit
               (Opt (Seq (Opt (Chars '':'')) (Seq (Chars ''012345'') (Seq rx_digit
                  (Opt (Seq (Chars ''.'') (Seq rx_digit rx_upto5)))))))))))))
         (Chars ''Z'')"

definition format_regex :: "rx list" where
  "format_regex = [rx_Y, rx_m, rx_d, rx_H, rx_M, rx_S, rx_z]"

text \<open>
  \<^verbatim>\<open>int(s)\<close> on the strings that reach it here (groups of the expression and slices of
  the offset): surrounding whitespace is dropped, the rest must be decimal digits;
  \<open>None\<close> is \<^verbatim>\<open>ValueError\<close>.
\<close>

definition py_int :: "string \<Rightarrow> nat option" where
  "py_int s =
     (let t = py_strip s in
      if t \<noteq> [] \<and> list_all (\<lambda>c. c \<in> set ''0123456789'') t
      then Some (foldl (\<lambda>n c. 10 * n + (of_char c - 48)) 0 t)
      else None)"

text \<open>
  The \<^verbatim>\<open>z\<close> branch of \<^verbatim>\<open>_strptime\<close>: \<open>(gmtoff, gmtoff_fraction)\<close>. \<open>take\<close> and \<open>drop\<close> are
  the slices of the code, \<open>None\<close> is \<^verbatim>\<open>ValueError\<close>. The group has five characters or
  more unless it is \<^verbatim>\<open>Z\<close>, so \<^verbatim>\<open>z[3]\<close> exists.
\<close>

definition parse_z :: "string \<Rightarrow> (int \<times> int) option" where
  "parse_z z0 =
     (if z0 = ''Z'' then Some (0, 0)
      else
        (case (if take 1 (drop 3 z0) = '':''
               then
                 let z = take 3 z0 @ drop 4 z0 in
                 if 5 < length z
                 then (if take 1 (drop 5 z) \<noteq> '':'' then None else Some (take 5 z @ drop 6 z))
                 else Some z
               else Some z0) of
           None \<Rightarrow> None
         | Some z \<Rightarrow>
             (case those [py_int (take 2 (drop 1 z)), py_int (take 2 (drop 3 z)),
                          if take 2 (drop 5 z) = [] then Some 0 else py_int (take 2 (drop 5 z)),
                          py_int (drop 8 z @ replicate (6 - length (drop 8 z)) CHR ''0'')] of
                Some [hours, minutes, seconds, fraction] \<Rightarrow>
                  let gmtoff = int (hours * 60 * 60 + minutes * 60 + seconds) in
                  if take 1 z = ''-'' then Some (- gmtoff, - int fraction)
                  else Some (gmtoff, int fraction)
              | _ \<Rightarrow> None)))"

definition is_leap :: "nat \<Rightarrow> bool" where
  "is_leap y \<longleftrightarrow> y mod 4 = 0 \<and> (y mod 100 \<noteq> 0 \<or> y mod 400 = 0)"

definition days_in_month :: "nat \<Rightarrow> nat \<Rightarrow> nat" where
  "days_in_month y m =
     (if m = 2 then (if is_leap y then 29 else 28)
      else if m = 4 \<or> m = 6 \<or> m = 9 \<or> m = 11 then 30 else 31)"

text \<open>
  The first match must use the whole input. The fields are those of the groups; the
  constructors of \<^verbatim>\<open>date\<close>, \<^verbatim>\<open>datetime\<close> and \<^verbatim>\<open>timezone\<close> refuse year 0, a day past the end
  of the month, a second above 59 and an offset of a day or more.
\<close>

definition py_strptime :: "string \<Rightarrow> datetime option" where
  "py_strptime data_string =
     (case groups_match format_regex data_string of
        [] \<Rightarrow> None
      | (found, rest) # _ \<Rightarrow>
          if rest \<noteq> [] then None
          else
            (case (those (map py_int (butlast found)), parse_z (last found)) of
               (Some [Y, m, d, H, M, S], Some (off, frac)) \<Rightarrow>
                 if 1 \<le> Y \<and> d \<le> days_in_month Y m \<and> S \<le> 59 \<and>
                    \<bar>off * 1000000 + frac\<bar> < 86400 * 1000000
                 then Some \<lparr>year = Y, month = m, day = d, hour = H, minute = M, second = S,
                            gmtoff = off, gmtoff_fraction = frac\<rparr>
                 else None
             | _ \<Rightarrow> None))"

subsection \<open>Properties of states and documents\<close>

text \<open>
  Every entry of the cache is what \<^verbatim>\<open>parse_epg\<close> stored: the parse of a well-formed,
  non-blank document, under the fingerprint of that document.
\<close>

definition cache_inv :: "externals \<Rightarrow> pstate \<Rightarrow> bool" where
  "cache_inv env s \<longleftrightarrow>
     (\<forall>h r. epg_cache s h = Some r \<longrightarrow>
        (\<exists>content root. get_content_hash env content = h \<and> py_strip content \<noteq> [] \<and>
           fromstring env content = Some root \<and> r = parse_root env root))"

text \<open>No other document has the fingerprint of this one.\<close>

definition collision_free :: "externals \<Rightarrow> string \<Rightarrow> bool" where
  "collision_free env content \<longleftrightarrow>
     (\<forall>content'. get_content_hash env content' = get_content_hash env content \<longrightarrow> content' = content)"

text \<open>The key of every stored programme is the value of its \<^verbatim>\<open>channel\<close> attribute.\<close>

definition keys_consistent :: "programmes \<Rightarrow> bool" where
  "keys_consistent programmes \<longleftrightarrow>
     (\<forall>(k, prog_list) \<in> set programmes. \<forall>prog \<in> set prog_list. elem_get prog ''channel'' = Some k)"

text \<open>The programmes of a table, each with the key it is stored under.\<close>

definition stored :: "programmes \<Rightarrow> (string \<times> element) list" where
  "stored programmes = concat (map (\<lambda>(k, prog_list). map (Pair k) prog_list) programmes)"

text \<open>The parse results that the loop of \<^verbatim>\<open>main\<close> merges, in the order of the sources.\<close>

fun parse_all :: "externals \<Rightarrow> string option list \<Rightarrow> pstate \<Rightarrow> epg list" where
  "parse_all env [] s = []"
| "parse_all env (None # rest) s = parse_all env rest s"
| "parse_all env (Some epg_content # rest) s =
     (case parse_epg env (Some epg_content) True s of
        (result, s') \<Rightarrow> result # parse_all env rest s')"

text \<open>
  The checks of the programme loop, as the specification words them: a non-empty
  channel id, \<^verbatim>\<open>start\<close> and \<^verbatim>\<open>stop\<close> present and accepted by \<open>strptime\<close> once their
  whitespace is removed, a \<^verbatim>\<open>title\<close> child with text.
\<close>

definition admissible :: "externals \<Rightarrow> element \<Rightarrow> bool" where
  "admissible env programme \<longleftrightarrow>
     (\<exists>channel_id. transform2_zh_hans env (elem_get programme ''channel'') = Some channel_id \<and>
        channel_id \<noteq> []) \<and>
     (\<exists>start_time. elem_get programme ''start'' = Some start_time \<and> start_time \<noteq> [] \<and>
        strptime env (re_sub_spaces start_time) \<noteq> None) \<and>
     (\<exists>stop_time. elem_get programme ''stop'' = Some stop_time \<and> stop_time \<noteq> [] \<and>
        strptime env (re_sub_spaces stop_time) \<noteq> None) \<and>
     (\<exists>title_elem. elem_find programme ''title'' = Some title_elem \<and> elem_text title_elem \<noteq> None)"

text \<open>
  The timestamp grammar of the specification, \<^verbatim>\<open>YYYYMMDDHHMMSS\<close> then a sign and \<^verbatim>\<open>HHMM\<close>:
  fourteen digits, \<^verbatim>\<open>+\<close> or \<^verbatim>\<open>-\<close>, four digits.
\<close>

definition spec_grammar :: "string \<Rightarrow> bool" where
  "spec_grammar s \<longleftrightarrow>
     length s = 19 \<and> list_all (\<lambda>c. c \<in> set ''0123456789'') (take 14 s) \<and>
     take 1 (drop 14 s) \<in> {''+'', ''-''} \<and> list_all (\<lambda>c. c \<in> set ''0123456789'') (drop 15 s)"

text \<open>
  The decimal digits, the value of one and the number that a string of them writes.
\<close>

definition digits :: "char set" where
  "digits = set ''0123456789''"

definition dv :: "char \<Rightarrow> nat" where
  "dv c = of_char c - 48"

definition decimal :: "string \<Rightarrow> nat" where
  "decimal s = foldl (\<lambda>n c. 10 * n + dv c) 0 s"

text \<open>
  A timestamp of the grammar with its fields in range: a year from 1, a day of the
  calendar, a time of day, an offset of at most 23 hours and 59 minutes.
\<close>

definition spec_valid :: "string \<Rightarrow> bool" where
  "spec_valid s \<longleftrightarrow>
     spec_grammar s \<and>
     1 \<le> decimal (take 4 s) \<and>
     1 \<le> decimal (take 2 (drop 4 s)) \<and> decimal (take 2 (drop 4 s)) \<le> 12 \<and>
     1 \<le> decimal (take 2 (drop 6 s)) \<and>
     decimal (take 2 (drop 6 s)) \<le> days_in_month (decimal (take 4 s)) (decimal (take 2 (drop 4 s))) \<and>
     decimal (take 2 (drop 8 s)) \<le> 23 \<and>
     decimal (take 2 (drop 10 s)) \<le> 59 \<and>
     decimal (take 2 (drop 12 s)) \<le> 59 \<and>
     decimal (take 2 (drop 15 s)) \<le> 23 \<and>
     decimal (take 2 (drop 17 s)) \<le> 59"

text \<open>
  Two notions for the proofs about the expression: a character is in a class, and a list
  begins with a given element.
\<close>

definition in_class :: "string \<Rightarrow> char \<Rightarrow> bool" where
  "in_class cs a \<longleftrightarrow> a \<in> set cs"

definition hd_is :: "'a list \<Rightarrow> 'a \<Rightarrow> bool" where
  "hd_is xs x \<longleftrightarrow> (\<exists>tl. xs = x # tl)"

text \<open>What a request contributes: its text when it succeeds.\<close>

definition fetched :: "response outcome \<Rightarrow> string option" where
  "fetched got =
     (case got of
        Raises e \<Rightarrow> None
      | Returns r \<Rightarrow>
          if 400 \<le> status r then None
          else (case body r of Raises e \<Rightarrow> None | Returns t \<Rightarrow> Some t))"

text \<open>The request ends in a \<^verbatim>\<open>BaseException\<close> that is no \<^verbatim>\<open>Exception\<close>.\<close>

definition interrupted :: "response outcome \<Rightarrow> bool" where
  "interrupted got \<longleftrightarrow>
     got = Raises BaseException \<or>
     (\<exists>r. got = Returns r \<and> status r < 400 \<and> body r = Raises BaseException)"

subsection \<open>Example documents\<close>

text \<open>
  The two sources of the specification's end-to-end scenario, and documents with a
  rejected programme, a \<^verbatim>\<open>Z\<close> offset, a programme of an undeclared channel, no channel
  at all, an unclosed element, and a programme of the year 999. \<open>example_fromstring\<close> gives the tree of each
  well-formed one; on the unclosed document ElementTree raises \<^verbatim>\<open>ParseError\<close>.
\<close>

definition doc_a :: string where
  "doc_a = ''<tv><channel id='ch1'><display-name>A Name</display-name></channel><programme channel='ch1' start='20240101060000 +0000' stop='20240101070000 +0000'><title>Morning</title></programme></tv>''"

definition tree_a :: element where
  "tree_a =
     Element ''tv'' [] None
       [Element ''channel'' [(''id'', ''ch1'')] None
          [Element ''display-name'' [] (Some ''A Name'') []],
        Element ''programme''
          [(''channel'', ''ch1''), (''start'', ''20240101060000 +0000''),
           (''stop'', ''20240101070000 +0000'')] None
          [Element ''title'' [] (Some ''Morning'') []]]"

definition doc_b :: string where
  "doc_b = ''<tv><channel id='ch1'><display-name>B Name</display-name></channel><programme channel='ch1' start='20240101070000 -0500' stop='20240101080000 -0500'><title>Noon</title><desc>News</desc></programme></tv>''"

definition tree_b :: element where
  "tree_b =
     Element ''tv'' [] None
       [Element ''channel'' [(''id'', ''ch1'')] None
          [Element ''display-name'' [] (Some ''B Name'') []],
        Element ''programme''
          [(''channel'', ''ch1''), (''start'', ''20240101070000 -0500''),
           (''stop'', ''20240101080000 -0500'')] None
          [Element ''title'' [] (Some ''Noon'') [], Element ''desc'' [] (Some ''News'') []]]"

definition doc_mixed :: string where
  "doc_mixed = ''<tv><channel id='ch1'/><programme channel='ch1' start='20240101' stop='20240101070000 +0000'><title>Short</title></programme><programme channel='ch1' start='20240101060000 +0000' stop='20240101070000 +0000'><title/></programme><programme start='20240101060000 +0000' stop='20240101070000 +0000'><title>Nowhere</title></programme><programme channel='ch1' start='20240101060000 +0000' stop='20240101070000 +0000'><title>Morning</title></programme></tv>''"

definition tree_mixed :: element where
  "tree_mixed =
     Element ''tv'' [] None
       [Element ''channel'' [(''id'', ''ch1'')] None [],
        Element ''programme''
          [(''channel'', ''ch1''), (''start'', ''20240101''),
           (''stop'', ''20240101070000 +0000'')] None
          [Element ''title'' [] (Some ''Short'') []],
        Element ''programme''
          [(''channel'', ''ch1''), (''start'', ''20240101060000 +0000''),
           (''stop'', ''20240101070000 +0000'')] None
          [Element ''title'' [] None []],
        Element ''programme''
          [(''start'', ''20240101060000 +0000''), (''stop'', ''20240101070000 +0000'')] None
          [Element ''title'' [] (Some ''Nowhere'') []],
        Element ''programme''
          [(''channel'', ''ch1''), (''start'', ''20240101060000 +0000''),
           (''stop'', ''20240101070000 +0000'')] None
          [Element ''title'' [] (Some ''Morning'') []]]"

definition doc_z :: string where
  "doc_z = ''<tv><channel id='ch1'/><programme channel='ch1' start='20240101060000Z' stop='20240101070000Z'><title>Morning</title></programme></tv>''"

definition tree_z :: element where
  "tree_z =
     Element ''tv'' [] None
       [Element ''channel'' [(''id'', ''ch1'')] None [],
        Element ''programme''
          [(''channel'', ''ch1''), (''start'', ''20240101060000Z''),
           (''stop'', ''20240101070000Z'')] None
          [Element ''title'' [] (Some ''Morning'') []]]"

definition doc_orphan :: string where
  "doc_orphan = ''<tv><channel id='c1'/><programme channel='c2' start='20240101060000 +0000' stop='20240101070000 +0000'><title>Late</title></programme></tv>''"

definition tree_orphan :: element where
  "tree_orphan =
     Element ''tv'' [] None
       [Element ''channel'' [(''id'', ''c1'')] None [],
        Element ''programme''
          [(''channel'', ''c2''), (''start'', ''20240101060000 +0000''),
           (''stop'', ''20240101070000 +0000'')] None
          [Element ''title'' [] (Some ''Late'') []]]"

definition doc_nochannel :: string where
  "doc_nochannel = ''<tv><programme channel='c1' start='20240101060000 +0000' stop='20240101070000 +0000'><title>Late</title></programme></tv>''"

definition tree_nochannel :: element where
  "tree_nochannel =
     Element ''tv'' [] None
       [Element ''programme''
          [(''channel'', ''c1''), (''start'', ''20240101060000 +0000''),
           (''stop'', ''20240101070000 +0000'')] None
          [Element ''title'' [] (Some ''Late'') []]]"

definition doc_unclosed :: string where
  "doc_unclosed = ''<tv><channel id='ch1'>''"

definition doc_y999 :: string where
  "doc_y999 = ''<tv><channel id='ch1'/><programme channel='ch1' start='09990101000000+0000' stop='09990101010000+0000'><title>Old</title></programme></tv>''"

definition tree_y999 :: element where
  "tree_y999 =
     Element ''tv'' [] None
       [Element ''channel'' [(''id'', ''ch1'')] None [],
        Element ''programme''
          [(''channel'', ''ch1''), (''start'', ''09990101000000+0000''),
           (''stop'', ''09990101010000+0000'')] None
          [Element ''title'' [] (Some ''Old'') []]]"

definition example_fromstring :: "string \<Rightarrow> element option" where
  "example_fromstring s =
     (if s = doc_a then Some tree_a
      else if s = doc_b then Some tree_b
      else if s = doc_mixed then Some tree_mixed
      else if s = doc_z then Some tree_z
      else if s = doc_orphan then Some tree_orphan
      else if s = doc_nochannel then Some tree_nochannel
      else if s = doc_y999 then Some tree_y999
      else None)"

text \<open>The \<^verbatim>\<open>%Y\<close> of glibc: the year in decimal, with no padding.\<close>

fun glibc_Y :: "nat \<Rightarrow> string" where
  "glibc_Y n = (if n < 10 then [digit_char n] else glibc_Y (n div 10) @ [digit_char n])"

declare glibc_Y.simps [simp del]

text \<open>
  The libraries on the example documents: the conversion leaves their ASCII text as it
  is, a document stands for its own fingerprint, and the C library is glibc.
\<close>

definition example_env :: externals where
  "example_env =
     \<lparr>cc_convert = (\<lambda>s. Some s), md5_hexdigest = (\<lambda>s. s),
      fromstring = example_fromstring, strptime = py_strptime, strftime_Y = glibc_Y\<rparr>"

text \<open>
  The same libraries with a fingerprint that reads the first 21 characters of a text
  only. A fingerprint of bounded length gives some pairs of texts the same value, as
  MD5 does; with this one such pairs are among the example documents.
\<close>

definition colliding_env :: externals where
  "colliding_env = example_env\<lparr>md5_hexdigest := take 21\<rparr>"

text \<open>Six requests: two succeed, the others fail in the four ways the fetcher names.\<close>

definition example_net :: "nat \<Rightarrow> string \<Rightarrow> response outcome" where
  "example_net i url =
     (if i = 0 then Returns \<lparr>status = 200, body = Returns doc_a\<rparr>
      else if i = 1 then Raises TimeoutError
      else if i = 2 then Returns \<lparr>status = 404, body = Returns ''Not Found''\<rparr>
      else if i = 3 then Raises ClientError
      else if i = 4 then Returns \<lparr>status = 200, body = Raises OtherException\<rparr>
      else Returns \<lparr>status = 200, body = Returns doc_b\<rparr>)"

definition example_urls :: "string list" where
  "example_urls = [''http://a/epg.xml'', ''http://b/epg.xml'', ''http://c/epg.xml'',
                   ''http://d/epg.xml'', ''http://e/epg.xml'', ''http://f/epg.xml'']"

section \<open>Dictionaries\<close>

lemma map_of_dict_set: "map_of (dict_set d k v) = (map_of d)(k \<mapsto> v)"
  by (induction d) (auto simp: fun_eq_iff)

lemma dict_keys_dict_set:
  "dict_keys (dict_set d k v) = (if k \<in> set (dict_keys d) then dict_keys d else dict_keys d @ [k])"
  by (induction d) (force simp: dict_keys_def)+

lemma set_dict_keys_dict_set: "set (dict_keys (dict_set d k v)) = insert k (set (dict_keys d))"
  by (auto simp: dict_keys_dict_set)

lemma distinct_dict_set: "distinct (dict_keys d) \<Longrightarrow> distinct (dict_keys (dict_set d k v))"
  by (simp add: dict_keys_dict_set)

lemma set_dict_set: "set (dict_set d k v) \<subseteq> insert (k, v) (set d)"
  by (induction d) (auto split: if_splits)

lemma dict_set_same: "map_of d k = Some v \<Longrightarrow> dict_set d k v = d"
  by (induction d) (auto split: if_splits)

lemma dd_get_dict_set: "dd_get (dict_set d k xs) k' = (if k' = k then xs else dd_get d k')"
  by (simp add: dd_get_def map_of_dict_set)

lemma dd_get_dd_append: "dd_get (dd_append d k x) k' = (if k' = k then dd_get d k @ [x] else dd_get d k')"
  by (simp add: dd_append_def dd_get_dict_set)

lemma dd_get_dd_extend: "dd_get (dd_extend d k xs) k' = (if k' = k then dd_get d k @ xs else dd_get d k')"
  by (simp add: dd_extend_def dd_get_dict_set)

lemma dd_get_mem:
  assumes "x \<in> set (dd_get d k)"
  shows "\<exists>xs. (k, xs) \<in> set d \<and> x \<in> set xs"
proof (cases "map_of d k")
  case None
  with assms show ?thesis by (simp add: dd_get_def)
next
  case (Some xs)
  then have "(k, xs) \<in> set d" by (rule map_of_SomeD)
  with Some assms show ?thesis by (auto simp: dd_get_def)
qed

lemma map_of_dict_update:
  "distinct (dict_keys other) \<Longrightarrow> map_of (dict_update d other) = map_of d ++ map_of other"
proof (induction other arbitrary: d)
  case Nil
  then show ?case by simp
next
  case (Cons a other)
  obtain k v where a: "a = (k, v)" by (cases a)
  from Cons.prems have k: "map_of other k = None" and dist: "distinct (dict_keys other)"
    by (auto simp: a dict_keys_def map_of_eq_None_iff)
  have "map_of (dict_update (dict_set d k v) other) = map_of (dict_set d k v) ++ map_of other"
    using dist by (rule Cons.IH)
  also have "\<dots> = map_of d ++ map_of ((k, v) # other)"
  proof
    fix x
    show "(map_of (dict_set d k v) ++ map_of other) x = (map_of d ++ map_of ((k, v) # other)) x"
      using k by (cases "x = k") (simp_all add: map_of_dict_set map_add_def split: option.splits)
  qed
  finally show ?case by (simp only: a dict_update.simps)
qed

lemma dict_keys_dict_update:
  "set (dict_keys (dict_update d other)) = set (dict_keys d) \<union> set (dict_keys other)"
proof (induction other arbitrary: d)
  case Nil
  then show ?case by (simp add: dict_keys_def)
next
  case (Cons a other)
  obtain k v where a: "a = (k, v)" by (cases a)
  have "set (dict_keys (a # other)) = insert k (set (dict_keys other))"
    by (simp add: a dict_keys_def)
  then show ?case
    by (simp add: a Cons.IH set_dict_keys_dict_set)
qed

lemma distinct_dict_update:
  "distinct (dict_keys d) \<Longrightarrow> distinct (dict_keys (dict_update d other))"
proof (induction other arbitrary: d)
  case Nil
  then show ?case by simp
next
  case (Cons a other)
  obtain k v where a: "a = (k, v)" by (cases a)
  show ?case using Cons.prems
    by (simp add: a Cons.IH distinct_dict_set)
qed

lemma dd_get_extend_all:
  "distinct (dict_keys programmes) \<Longrightarrow>
   dd_get (extend_all all_programmes programmes) k = dd_get all_programmes k @ dd_get programmes k"
proof (induction programmes arbitrary: all_programmes)
  case Nil
  then show ?case by (simp add: dd_get_def)
next
  case (Cons a programmes)
  obtain c ps where a: "a = (c, ps)" by (cases a)
  from Cons.prems have c: "map_of programmes c = None" and dist: "distinct (dict_keys programmes)"
    by (auto simp: a dict_keys_def map_of_eq_None_iff)
  have "dd_get (extend_all (dd_extend all_programmes c ps) programmes) k =
        dd_get (dd_extend all_programmes c ps) k @ dd_get programmes k"
    using dist by (rule Cons.IH)
  moreover have "dd_get programmes c = []"
    using c by (simp add: dd_get_def)
  ultimately show ?case
    by (simp add: a dd_get_dd_extend) (simp add: dd_get_def)
qed

lemma dict_keys_Nil: "dict_keys [] = []"
  by (simp add: dict_keys_def)

section \<open>Stored programmes\<close>

lemma stored_Nil: "stored [] = []"
  by (simp add: stored_def)

lemma stored_Cons: "stored ((k, ps) # d) = map (Pair k) ps @ stored d"
  by (simp add: stored_def)

lemma stored_dict_set:
  "set (stored (dict_set d k (dd_get d k @ xs))) = set (stored d) \<union> Pair k ` set xs"
proof (induction d)
  case Nil
  then show ?case by (simp add: stored_def dd_get_def)
next
  case (Cons a d)
  obtain k' ps where a: "a = (k', ps)" by (cases a)
  show ?case
  proof (cases "k' = k")
    case True
    then show ?thesis
      by (auto simp: a stored_Cons dd_get_def)
  next
    case False
    then have "dd_get (a # d) k = dd_get d k"
      by (simp add: a dd_get_def)
    with False Cons.IH show ?thesis
      by (auto simp: a stored_Cons)
  qed
qed

lemma stored_dd_append: "set (stored (dd_append d k x)) = insert (k, x) (set (stored d))"
  using stored_dict_set[of d k "[x]"] by (simp add: dd_append_def)

lemma stored_dd_extend: "set (stored (dd_extend d k xs)) = set (stored d) \<union> Pair k ` set xs"
  by (simp add: dd_extend_def stored_dict_set)

lemma stored_mem: "(k, p) \<in> set (stored d) \<longleftrightarrow> (\<exists>ps. (k, ps) \<in> set d \<and> p \<in> set ps)"
  by (induction d) (auto simp: stored_def)

lemma stored_extend_all:
  "set (stored (extend_all all_programmes programmes)) =
     set (stored all_programmes) \<union> set (stored programmes)"
proof (induction programmes arbitrary: all_programmes)
  case Nil
  then show ?case by (simp add: stored_Nil)
next
  case (Cons a programmes)
  obtain k ps where a: "a = (k, ps)" by (cases a)
  show ?case
    by (auto simp: a Cons.IH stored_dd_extend stored_Cons)
qed

lemma keys_consistent_stored:
  "keys_consistent d \<longleftrightarrow> (\<forall>(k, p) \<in> set (stored d). elem_get p ''channel'' = Some k)"
  by (fastforce simp: keys_consistent_def stored_mem)

lemma keys_consistent_Nil: "keys_consistent []"
  by (simp add: keys_consistent_def)

section \<open>Elements\<close>

lemma elem_get_Element: "elem_get (Element t a x c) k = map_of a k"
  by (simp add: elem_get_def)

lemma elem_get_elem_append: "elem_get (elem_append e c) k = elem_get e k"
  by (simp add: elem_get_def elem_append_def)

lemma elem_set_same: "elem_get e k = Some v \<Longrightarrow> elem_set e k v = e"
  by (cases e) (simp add: elem_get_def elem_set_def dict_set_same)

lemma elem_get_elem_set: "elem_get (elem_set e k v) k = Some v"
  by (simp add: elem_get_def elem_set_def map_of_dict_set)

section \<open>Whitespace\<close>

lemma py_strip_empty_iff: "py_strip s = [] \<longleftrightarrow> (\<forall>c \<in> set s. is_space c)"
proof
  assume "py_strip s = []"
  then have "\<forall>c \<in> set (dropWhile is_space s). is_space c"
    by (simp add: py_strip_def dropWhile_eq_Nil_conv)
  then have "dropWhile is_space s = []"
    using hd_dropWhile[of is_space s] by (cases "dropWhile is_space s") auto
  then show "\<forall>c \<in> set s. is_space c"
    by (simp add: dropWhile_eq_Nil_conv)
next
  assume "\<forall>c \<in> set s. is_space c"
  then show "py_strip s = []"
    by (auto simp: py_strip_def dest: set_dropWhileD)
qed

lemma py_strip_Cons: "\<not> is_space c \<Longrightarrow> py_strip (c # r) \<noteq> []"
  by (simp add: py_strip_empty_iff)

section \<open>The programme loop\<close>

lemma new_programme_admissible: "new_programme env e \<noteq> None \<longleftrightarrow> admissible env e"
  by (auto simp: new_programme_def admissible_def Let_def split: option.splits)

lemma new_programme_channel:
  assumes "new_programme env e = Some (k, p)"
  shows "k \<noteq> [] \<and> transform2_zh_hans env (elem_get e ''channel'') = Some k \<and>
         elem_get p ''channel'' = Some k"
  using assms
  by (auto simp: new_programme_def Let_def elem_get_Element elem_get_elem_append
           split: option.splits if_splits)

lemma new_programme_times:
  assumes "new_programme env e = Some (k, p)"
  shows "\<exists>start_time stop_time channel_start channel_stop.
           elem_get e ''start'' = Some start_time \<and> elem_get e ''stop'' = Some stop_time \<and>
           strptime env (re_sub_spaces start_time) = Some channel_start \<and>
           strptime env (re_sub_spaces stop_time) = Some channel_stop \<and>
           elem_get p ''start'' = Some (strftime_0800 env channel_start) \<and>
           elem_get p ''stop'' = Some (strftime_0800 env channel_stop)"
  using assms
  by (auto simp: new_programme_def Let_def elem_get_Element elem_get_elem_append
           split: option.splits if_splits)

lemma stored_programme_step:
  "set (stored (programme_step env d e)) =
     set (stored d) \<union> {(k, p). new_programme env e = Some (k, p)}"
  by (auto simp: programme_step_def stored_dd_append split: option.splits)

lemma stored_programme_loop:
  "set (stored (programme_loop env d es)) =
     set (stored d) \<union> {(k, p). \<exists>e \<in> set es. new_programme env e = Some (k, p)}"
proof (induction es arbitrary: d)
  case Nil
  then show ?case by simp
next
  case (Cons e es)
  show ?case
    by (simp add: Cons.IH stored_programme_step) blast
qed

lemma keys_programme_step:
  "set (dict_keys (programme_step env d e)) =
     set (dict_keys d) \<union> {k. \<exists>p. new_programme env e = Some (k, p)}"
  by (auto simp: programme_step_def dd_append_def set_dict_keys_dict_set split: option.splits)

lemma keys_programme_loop:
  "set (dict_keys (programme_loop env d es)) =
     set (dict_keys d) \<union> {k. \<exists>e \<in> set es. \<exists>p. new_programme env e = Some (k, p)}"
proof (induction es arbitrary: d)
  case Nil
  then show ?case by simp
next
  case (Cons e es)
  show ?case
    by (simp add: Cons.IH keys_programme_step) blast
qed

lemma distinct_programme_loop:
  "distinct (dict_keys d) \<Longrightarrow> distinct (dict_keys (programme_loop env d es))"
proof (induction es arbitrary: d)
  case Nil
  then show ?case by simp
next
  case (Cons e es)
  from Cons.prems have "distinct (dict_keys (programme_step env d e))"
    by (auto simp: programme_step_def dd_append_def distinct_dict_set split: option.splits)
  then show ?case by (simp add: Cons.IH)
qed

section \<open>The channel loop\<close>

lemma keys_channel_step:
  "set (dict_keys (channel_step env d e)) =
     set (dict_keys d) \<union>
     {k. transform2_zh_hans env (elem_get e ''id'') = Some k \<and> k \<noteq> []}"
  by (auto simp: channel_step_def Let_def set_dict_keys_dict_set split: option.splits)

lemma keys_channel_loop:
  "set (dict_keys (channel_loop env d es)) =
     set (dict_keys d) \<union>
     {k. \<exists>e \<in> set es. transform2_zh_hans env (elem_get e ''id'') = Some k \<and> k \<noteq> []}"
proof (induction es arbitrary: d)
  case Nil
  then show ?case by simp
next
  case (Cons e es)
  show ?case
    by (simp add: Cons.IH keys_channel_step) blast
qed

lemma distinct_channel_loop:
  "distinct (dict_keys d) \<Longrightarrow> distinct (dict_keys (channel_loop env d es))"
proof (induction es arbitrary: d)
  case Nil
  then show ?case by simp
next
  case (Cons e es)
  from Cons.prems have "distinct (dict_keys (channel_step env d e))"
    by (auto simp: channel_step_def Let_def distinct_dict_set split: option.splits)
  then show ?case by (simp add: Cons.IH)
qed

section \<open>A parsed document\<close>

lemma parse_root_distinct:
  "distinct (dict_keys (fst (parse_root env root)))"
  "distinct (dict_keys (snd (parse_root env root)))"
  by (simp_all add: parse_root_def distinct_channel_loop distinct_programme_loop dict_keys_Nil)

lemma parse_root_channel_keys:
  "set (dict_keys (fst (parse_root env root))) =
     {k. \<exists>e \<in> set (elem_findall root ''channel'').
           transform2_zh_hans env (elem_get e ''id'') = Some k \<and> k \<noteq> []}"
  by (simp add: parse_root_def keys_channel_loop dict_keys_Nil)

lemma parse_root_programme_keys:
  "set (dict_keys (snd (parse_root env root))) =
     {k. \<exists>e \<in> set (elem_findall root ''programme''). \<exists>p. new_programme env e = Some (k, p)}"
  by (simp add: parse_root_def keys_programme_loop dict_keys_Nil)

lemma parse_root_stored:
  "set (stored (snd (parse_root env root))) =
     {(k, p). \<exists>e \<in> set (elem_findall root ''programme''). new_programme env e = Some (k, p)}"
  by (simp add: parse_root_def stored_programme_loop stored_Nil)

lemma parse_root_keys_consistent: "keys_consistent (snd (parse_root env root))"
  by (auto simp: keys_consistent_stored parse_root_stored dest: new_programme_channel)

section \<open>The cache\<close>

lemma parse_epg_None: "parse_epg env None use_cache s = (([], []), s)"
  by (simp add: parse_epg_def)

lemma parse_epg_blank: "py_strip content = [] \<Longrightarrow> parse_epg env (Some content) use_cache s = (([], []), s)"
  by (simp add: parse_epg_def)

lemma parse_epg_hit:
  "py_strip content \<noteq> [] \<Longrightarrow> epg_cache s (get_content_hash env content) = Some cached \<Longrightarrow>
   parse_epg env (Some content) True s = (cached, s)"
  by (simp add: parse_epg_def)

lemma parse_epg_miss_malformed:
  "py_strip content \<noteq> [] \<Longrightarrow> use_cache \<longrightarrow> epg_cache s (get_content_hash env content) = None \<Longrightarrow>
   fromstring env content = None \<Longrightarrow>
   parse_epg env (Some content) use_cache s = (([], []), s\<lparr>parse_count := Suc (parse_count s)\<rparr>)"
  by (cases use_cache) (simp_all add: parse_epg_def Let_def)

lemma parse_epg_miss_parsed:
  "py_strip content \<noteq> [] \<Longrightarrow> epg_cache s (get_content_hash env content) = None \<Longrightarrow>
   fromstring env content = Some root \<Longrightarrow>
   parse_epg env (Some content) True s =
     (parse_root env root,
      s\<lparr>parse_count := Suc (parse_count s),
        epg_cache := (epg_cache s)(get_content_hash env content \<mapsto> parse_root env root)\<rparr>)"
  by (simp add: parse_epg_def Let_def)

lemma parse_epg_uncached_parsed:
  "py_strip content \<noteq> [] \<Longrightarrow> fromstring env content = Some root \<Longrightarrow>
   parse_epg env (Some content) False s = (parse_root env root, s\<lparr>parse_count := Suc (parse_count s)\<rparr>)"
  by (simp add: parse_epg_def Let_def)

lemma cache_inv_init: "cache_inv env init_state"
  by (simp add: cache_inv_def init_state_def)

lemma cache_inv_hit:
  assumes "cache_inv env s" "collision_free env content"
    "epg_cache s (get_content_hash env content) = Some cached"
  shows "\<exists>root. fromstring env content = Some root \<and> cached = parse_root env root"
proof -
  from assms(1,3) obtain content' root where
    h: "get_content_hash env content' = get_content_hash env content" and
    r: "fromstring env content' = Some root" "cached = parse_root env root"
    unfolding cache_inv_def by blast
  from assms(2) h have "content' = content"
    unfolding collision_free_def by blast
  with r show ?thesis by blast
qed

lemma cache_inv_parse_epg:
  assumes "cache_inv env s"
  shows "cache_inv env (snd (parse_epg env epg_content use_cache s))"
proof (cases epg_content)
  case None
  with assms show ?thesis by (simp add: parse_epg_None)
next
  case (Some content)
  show ?thesis
  proof (cases "py_strip content = []")
    case True
    with assms Some show ?thesis by (simp add: parse_epg_blank)
  next
    case False
    have count: "cache_inv env (s\<lparr>parse_count := n\<rparr>)" for n
      using assms by (simp add: cache_inv_def)
    show ?thesis
    proof (cases "fromstring env content")
      case None
      with assms Some False count show ?thesis
        by (auto simp: parse_epg_def Let_def split: option.splits)
    next
      case (Some root)
      have "cache_inv env (s\<lparr>parse_count := n, epg_cache := (epg_cache s)(get_content_hash env content \<mapsto> parse_root env root)\<rparr>)" for n
        using assms False Some unfolding cache_inv_def by auto
      with assms \<open>epg_content = Some content\<close> False Some count show ?thesis
        by (auto simp: parse_epg_def Let_def split: option.splits)
    qed
  qed
qed

text \<open>
  The result of a call, whatever the cache holds.
\<close>

lemma parse_epg_result:
  assumes "cache_inv env s" "collision_free env content" "py_strip content \<noteq> []"
  shows "fst (parse_epg env (Some content) use_cache s) =
           (case fromstring env content of None \<Rightarrow> ([], []) | Some root \<Rightarrow> parse_root env root)"
proof (cases "use_cache \<and> epg_cache s (get_content_hash env content) \<noteq> None")
  case True
  then obtain cached where c: "epg_cache s (get_content_hash env content) = Some cached" and u: use_cache
    by auto
  from cache_inv_hit[OF assms(1,2) c] obtain root where
    "fromstring env content = Some root" "cached = parse_root env root" by blast
  with c u assms(3) show ?thesis by (simp add: parse_epg_hit)
next
  case False
  then show ?thesis using assms(3)
    by (auto simp: parse_epg_def Let_def split: option.splits)
qed

lemma parse_epg_parsed:
  assumes "cache_inv env s" "collision_free env content" "py_strip content \<noteq> []"
    and "fromstring env content = Some root"
  shows "fst (parse_epg env (Some content) use_cache s) = parse_root env root"
  using parse_epg_result[OF assms(1-3), of use_cache] assms(4) by simp

text \<open>
  The cache is transparent: a call returns what an uncached parse of the text returns.
\<close>

lemma parse_epg_transparent:
  assumes "cache_inv env s" "collision_free env content"
  shows "fst (parse_epg env (Some content) use_cache s) =
           (if py_strip content = [] then ([], [])
            else case fromstring env content of None \<Rightarrow> ([], []) | Some root \<Rightarrow> parse_root env root)"
proof (cases "py_strip content = []")
  case True
  then show ?thesis by (simp add: parse_epg_blank)
next
  case False
  with parse_epg_result[OF assms False, of use_cache] show ?thesis by simp
qed

text \<open>
  Without a word on fingerprints: a result is empty or some parsed document.
\<close>

lemma parse_epg_result_cases:
  assumes "cache_inv env s"
  shows "fst (parse_epg env epg_content use_cache s) = ([], []) \<or>
         (\<exists>root. fst (parse_epg env epg_content use_cache s) = parse_root env root)"
proof (cases epg_content)
  case None
  then show ?thesis by (simp add: parse_epg_None)
next
  case (Some content)
  have hit: "\<exists>root. cached = parse_root env root" if "epg_cache s h = Some cached" for h cached
    using assms that unfolding cache_inv_def by blast
  show ?thesis
    unfolding Some
    by (auto simp: parse_epg_def Let_def split: option.splits if_splits dest: hit)
qed

text \<open>
  The document a result was parsed from: one with the fingerprint of the text, and the
  text itself unless the call hit the cache under a fingerprint that another document
  has too. A text that is not well-formed has the empty result unless it hits the cache.
\<close>

lemma parse_epg_source:
  assumes "cache_inv env s" "py_strip content \<noteq> []"
  shows "(fromstring env content = None \<and>
          (use_cache \<longrightarrow> epg_cache s (get_content_hash env content) = None) \<and>
          fst (parse_epg env (Some content) use_cache s) = ([], [])) \<or>
         (\<exists>content' root'.
            get_content_hash env content' = get_content_hash env content \<and>
            fromstring env content' = Some root' \<and>
            (\<not> use_cache \<or> epg_cache s (get_content_hash env content) = None \<or>
             collision_free env content \<longrightarrow> content' = content) \<and>
            (fromstring env content = None \<longrightarrow>
               use_cache \<and> epg_cache s (get_content_hash env content) = Some (parse_root env root')) \<and>
            fst (parse_epg env (Some content) use_cache s) = parse_root env root')"
proof (cases "use_cache \<and> epg_cache s (get_content_hash env content) \<noteq> None")
  case True
  then obtain cached where c: "epg_cache s (get_content_hash env content) = Some cached" and u: use_cache
    by auto
  from assms(1) c obtain content' root' where
    h: "get_content_hash env content' = get_content_hash env content" and
    r: "fromstring env content' = Some root'" "cached = parse_root env root'"
    unfolding cache_inv_def by blast
  have "content' = content" if "collision_free env content"
    using that h unfolding collision_free_def by blast
  moreover have "fst (parse_epg env (Some content) use_cache s) = parse_root env root'"
    using c u r(2) assms(2) by (simp add: parse_epg_hit)
  ultimately show ?thesis
    using h r c u by auto
next
  case False
  then have miss: "use_cache \<longrightarrow> epg_cache s (get_content_hash env content) = None"
    by blast
  show ?thesis
  proof (cases "fromstring env content")
    case None
    with miss assms(2) show ?thesis
      by (simp add: parse_epg_miss_malformed)
  next
    case (Some root)
    with miss assms(2) have "fst (parse_epg env (Some content) use_cache s) = parse_root env root"
      by (cases use_cache) (simp_all add: parse_epg_miss_parsed parse_epg_uncached_parsed)
    with Some show ?thesis
      by auto
  qed
qed

lemma keys_consistent_parse_epg:
  assumes "cache_inv env s"
  shows "keys_consistent (snd (fst (parse_epg env epg_content use_cache s)))"
  using parse_epg_result_cases[OF assms, of epg_content use_cache]
  by (auto simp: keys_consistent_Nil parse_root_keys_consistent)

section \<open>The merge loop\<close>

lemma merge_results_snoc: "merge_results (results @ [r]) = merge_step (merge_results results) r"
  by (simp add: merge_results_def)

lemma dict_get_merge_step:
  assumes "distinct (dict_keys (fst r))"
  shows "dict_get (fst (merge_step agg r)) k =
           (if k \<in> set (dict_keys (fst r)) then dict_get (fst r) k else dict_get (fst agg) k)"
proof (cases "fst r = []")
  case True
  then show ?thesis
    by (cases agg; cases r) (simp add: merge_step_def dict_keys_def)
next
  case False
  have "k \<in> set (dict_keys (fst r)) \<longleftrightarrow> map_of (fst r) k \<noteq> None"
    by (simp add: dict_keys_def map_of_eq_None_iff)
  with False assms show ?thesis
    by (cases agg; cases r)
       (auto simp: merge_step_def dict_get_def map_of_dict_update map_add_def split: option.splits)
qed

lemma dd_get_merge_step:
  assumes "distinct (dict_keys (snd r))"
  shows "dd_get (snd (merge_step agg r)) k =
           dd_get (snd agg) k @ (if fst r \<noteq> [] then dd_get (snd r) k else [])"
  using assms by (cases agg; cases r) (simp add: merge_step_def dd_get_extend_all)

lemma keys_consistent_merge_step:
  assumes "keys_consistent (snd agg)" "keys_consistent (snd r)"
  shows "keys_consistent (snd (merge_step agg r))"
  using assms
  by (cases agg; cases r) (auto simp: merge_step_def keys_consistent_stored stored_extend_all)

lemma main_loop_merge:
  "fst (main_loop env epg_contents agg s) = foldl merge_step agg (parse_all env epg_contents s)"
proof (induction env epg_contents agg s rule: main_loop.induct)
  case (1 env agg s)
  then show ?case by simp
next
  case (2 env rest agg s)
  then show ?case by simp
next
  case (3 env epg_content rest agg s)
  then show ?case
    by (cases "parse_epg env (Some epg_content) True s") simp
qed

lemma parse_all_transparent:
  assumes "cache_inv env s" "\<forall>content. collision_free env content"
  shows "parse_all env epg_contents s =
           map (\<lambda>content. if py_strip content = [] then ([], [])
                  else case fromstring env content of None \<Rightarrow> ([], []) | Some root \<Rightarrow> parse_root env root)
               (concat (map (\<lambda>c. case c of None \<Rightarrow> [] | Some content \<Rightarrow> [content]) epg_contents))"
  using assms
proof (induction env epg_contents s rule: parse_all.induct)
  case (1 env s)
  then show ?case by simp
next
  case (2 env rest s)
  then show ?case by simp
next
  case (3 env epg_content rest s)
  obtain result s' where p: "parse_epg env (Some epg_content) True s = (result, s')"
    by (cases "parse_epg env (Some epg_content) True s")
  have inv: "cache_inv env s'"
    using cache_inv_parse_epg[OF "3.prems"(1), of "Some epg_content" True] by (simp add: p)
  from "3.prems"(2) have cf: "collision_free env epg_content"
    by simp
  have "result = (if py_strip epg_content = [] then ([], [])
            else case fromstring env epg_content of None \<Rightarrow> ([], []) | Some root \<Rightarrow> parse_root env root)"
    using parse_epg_transparent[OF "3.prems"(1) cf, of True] by (simp add: p)
  with "3.IH"[OF p[symmetric] inv "3.prems"(2)] show ?case
    by (simp add: p)
qed

lemma main_loop_keys_consistent:
  assumes "cache_inv env s" "keys_consistent (snd agg)"
  shows "keys_consistent (snd (fst (main_loop env epg_contents agg s)))"
  using assms
proof (induction env epg_contents agg s rule: main_loop.induct)
  case (1 env agg s)
  then show ?case by simp
next
  case (2 env rest agg s)
  then show ?case by simp
next
  case (3 env epg_content rest agg s)
  obtain result s' where p: "parse_epg env (Some epg_content) True s = (result, s')"
    by (cases "parse_epg env (Some epg_content) True s")
  have inv: "cache_inv env s'"
    using cache_inv_parse_epg[OF "3.prems"(1), of "Some epg_content" True] by (simp add: p)
  have "keys_consistent (snd result)"
    using keys_consistent_parse_epg[OF "3.prems"(1), of "Some epg_content" True] by (simp add: p)
  then have "keys_consistent (snd (merge_step agg result))"
    using "3.prems"(2) by (simp add: keys_consistent_merge_step)
  with inv have "keys_consistent (snd (fst (main_loop env rest (merge_step agg result) s')))"
    by (rule "3.IH"[OF p[symmetric]])
  then show ?case by (simp add: p)
qed

section \<open>The serializer\<close>

lemma programme_elems_consistent:
  assumes "keys_consistent programmes"
  shows "concat (map programme_elems programmes) = map snd (stored programmes)"
  using assms
proof (induction programmes)
  case Nil
  then show ?case by (simp add: stored_Nil)
next
  case (Cons a programmes)
  obtain k ps where a: "a = (k, ps)" by (cases a)
  from Cons.prems have here: "\<forall>p \<in> set ps. elem_get p ''channel'' = Some k"
    and rest: "keys_consistent programmes"
    by (auto simp: a keys_consistent_def)
  from here have "map (\<lambda>prog. elem_set prog ''channel'' k) ps = ps"
    by (simp add: map_idI elem_set_same)
  with Cons.IH[OF rest] show ?case
    by (simp add: a programme_elems_def stored_Cons comp_def)
qed

section \<open>The fetcher\<close>

lemma fetch_epg_cases:
  "fetch_epg got = (if interrupted got then Inl BaseException else Inr (fetched got))"
  by (auto simp: fetch_epg_def interrupted_def fetched_def handle_def
           split: outcome.splits exn.splits)

lemma gather_Inr: "gather (map (\<lambda>x. Inr (f x)) xs) = Inr (map f xs)"
  by (induction xs) auto

lemma enumerate_nth_map:
  "map f (enumerate n xs) = map (\<lambda>i. f (n + i, xs ! i)) [0..<length xs]"
  by (rule nth_equalityI) (simp_all add: nth_enumerate_eq)

lemma all_less_6: "(\<forall>i < 6. P i) \<longleftrightarrow> P 0 \<and> P 1 \<and> P 2 \<and> P 3 \<and> P 4 \<and> P (5::nat)"
proof -
  have "i < 6 \<longleftrightarrow> i = 0 \<or> i = 1 \<or> i = 2 \<or> i = 3 \<or> i = 4 \<or> i = 5" for i :: nat
    by arith
  then show ?thesis by auto
qed

section \<open>The example documents, evaluated\<close>

lemmas py_strptime_simps = py_strptime_def format_regex_def rx_Y_def rx_m_def rx_d_def rx_H_def rx_M_def rx_S_def rx_z_def rx_upto5_def rx_digit_def
  py_int_def parse_z_def py_strip_def is_space_def whitespace_def days_in_month_def is_leap_def

lemma replicate_6: "replicate 6 x = [x, x, x, x, x, x]"
  by (simp add: eval_nat_numeral)

lemma strptime_0600_utc:
  "py_strptime ''20240101060000+0000'' =
     Some \<lparr>year = 2024, month = 1, day = 1, hour = 6, minute = 0, second = 0, gmtoff = 0, gmtoff_fraction = 0\<rparr>"
  by (simp add: py_strptime_simps replicate_6)

lemma strptime_0700_utc:
  "py_strptime ''20240101070000+0000'' =
     Some \<lparr>year = 2024, month = 1, day = 1, hour = 7, minute = 0, second = 0, gmtoff = 0, gmtoff_fraction = 0\<rparr>"
  by (simp add: py_strptime_simps replicate_6)

lemma strptime_0700_est:
  "py_strptime ''20240101070000-0500'' =
     Some \<lparr>year = 2024, month = 1, day = 1, hour = 7, minute = 0, second = 0, gmtoff = - 18000, gmtoff_fraction = 0\<rparr>"
  by (simp add: py_strptime_simps replicate_6)

lemma strptime_0800_est:
  "py_strptime ''20240101080000-0500'' =
     Some \<lparr>year = 2024, month = 1, day = 1, hour = 8, minute = 0, second = 0, gmtoff = - 18000, gmtoff_fraction = 0\<rparr>"
  by (simp add: py_strptime_simps replicate_6)

lemma strptime_short: "py_strptime ''20240101'' = None"
  by (simp add: py_strptime_simps)

lemma strptime_0600_z:
  "py_strptime ''20240101060000Z'' =
     Some \<lparr>year = 2024, month = 1, day = 1, hour = 6, minute = 0, second = 0, gmtoff = 0, gmtoff_fraction = 0\<rparr>"
  by (simp add: py_strptime_simps)

lemma strptime_0700_z:
  "py_strptime ''20240101070000Z'' =
     Some \<lparr>year = 2024, month = 1, day = 1, hour = 7, minute = 0, second = 0, gmtoff = 0, gmtoff_fraction = 0\<rparr>"
  by (simp add: py_strptime_simps)

lemmas strptime_examples = strptime_0600_utc strptime_0700_utc strptime_0700_est strptime_0800_est
  strptime_short strptime_0600_z strptime_0700_z

lemma strptime_y999_0000:
  "py_strptime ''09990101000000+0000'' =
     Some \<lparr>year = 999, month = 1, day = 1, hour = 0, minute = 0, second = 0, gmtoff = 0, gmtoff_fraction = 0\<rparr>"
  by (simp add: py_strptime_simps replicate_6)

lemma strptime_y999_0100:
  "py_strptime ''09990101010000+0000'' =
     Some \<lparr>year = 999, month = 1, day = 1, hour = 1, minute = 0, second = 0, gmtoff = 0, gmtoff_fraction = 0\<rparr>"
  by (simp add: py_strptime_simps replicate_6)

text \<open>A no-break space in a timestamp is removed like any other whitespace.\<close>

lemma re_sub_spaces_nbsp:
  "re_sub_spaces (''20240101060000'' @ [CHR 0xA0, CHR 0x85, CHR 0x20] @ ''+0000'') = ''20240101060000+0000''"
  by (simp add: re_sub_spaces_def is_space_def whitespace_def)

lemma glibc_Y_examples: "glibc_Y 2024 = ''2024''" "glibc_Y 999 = ''999''"
  by (simp_all add: glibc_Y.simps digit_char_def)

lemmas parse_root_simps = parse_root_def elem_findall_def elem_find_def elem_get_def elem_append_def
  channel_step_def programme_step_def new_programme_def transform2_zh_hans_def
  dd_append_def dd_get_def re_sub_spaces_def is_space_def whitespace_def
  strftime_0800_def wall_clock_def pad2_def glibc_Y_examples digit_char_def example_env_def

lemmas new_programme_simps = new_programme_def elem_find_def elem_get_def elem_append_def
  transform2_zh_hans_def re_sub_spaces_def is_space_def whitespace_def
  strftime_0800_def wall_clock_def pad2_def glibc_Y_examples digit_char_def example_env_def

lemma parse_root_a:
  "parse_root example_env tree_a =
     ([(''ch1'', Some ''A Name'')],
      [(''ch1'', [Element ''programme''
         [(''channel'', ''ch1''), (''start'', ''20240101060000 +0800''), (''stop'', ''20240101070000 +0800'')]
         None [Element ''title'' [] (Some ''Morning'') []]])])"
  by (simp add: tree_a_def parse_root_simps strptime_examples)

lemma parse_root_b:
  "parse_root example_env tree_b =
     ([(''ch1'', Some ''B Name'')],
      [(''ch1'', [Element ''programme''
         [(''channel'', ''ch1''), (''start'', ''20240101070000 +0800''), (''stop'', ''20240101080000 +0800'')]
         None [Element ''title'' [] (Some ''Noon'') [], Element ''desc'' [] (Some ''News'') []]])])"
  by (simp add: tree_b_def parse_root_simps strptime_examples)

lemma parse_root_mixed:
  "parse_root example_env tree_mixed =
     ([(''ch1'', Some [])],
      [(''ch1'', [Element ''programme''
         [(''channel'', ''ch1''), (''start'', ''20240101060000 +0800''), (''stop'', ''20240101070000 +0800'')]
         None [Element ''title'' [] (Some ''Morning'') []]])])"
  by (simp add: tree_mixed_def parse_root_simps strptime_examples)

lemma parse_root_z:
  "parse_root example_env tree_z =
     ([(''ch1'', Some [])],
      [(''ch1'', [Element ''programme''
         [(''channel'', ''ch1''), (''start'', ''20240101060000 +0800''), (''stop'', ''20240101070000 +0800'')]
         None [Element ''title'' [] (Some ''Morning'') []]])])"
  by (simp add: tree_z_def parse_root_simps strptime_examples)

lemma parse_root_orphan:
  "parse_root example_env tree_orphan =
     ([(''c1'', Some [])],
      [(''c2'', [Element ''programme''
         [(''channel'', ''c2''), (''start'', ''20240101060000 +0800''), (''stop'', ''20240101070000 +0800'')]
         None [Element ''title'' [] (Some ''Late'') []]])])"
  by (simp add: tree_orphan_def parse_root_simps strptime_examples)

lemma parse_root_nochannel:
  "parse_root example_env tree_nochannel =
     ([],
      [(''c1'', [Element ''programme''
         [(''channel'', ''c1''), (''start'', ''20240101060000 +0800''), (''stop'', ''20240101070000 +0800'')]
         None [Element ''title'' [] (Some ''Late'') []]])])"
  by (simp add: tree_nochannel_def parse_root_simps strptime_examples)

lemma parse_root_y999:
  "parse_root example_env tree_y999 =
     ([(''ch1'', Some [])],
      [(''ch1'', [Element ''programme''
         [(''channel'', ''ch1''), (''start'', ''9990101000000 +0800''), (''stop'', ''9990101010000 +0800'')]
         None [Element ''title'' [] (Some ''Old'') []]])])"
  by (simp add: tree_y999_def parse_root_simps strptime_y999_0000 strptime_y999_0100)

lemmas doc_defs = doc_a_def doc_b_def doc_mixed_def doc_z_def doc_orphan_def doc_nochannel_def doc_unclosed_def
  doc_y999_def

lemma fromstring_examples:
  "fromstring example_env doc_a = Some tree_a"
  "fromstring example_env doc_b = Some tree_b"
  "fromstring example_env doc_mixed = Some tree_mixed"
  "fromstring example_env doc_z = Some tree_z"
  "fromstring example_env doc_orphan = Some tree_orphan"
  "fromstring example_env doc_nochannel = Some tree_nochannel"
  "fromstring example_env doc_unclosed = None"
  "fromstring example_env doc_y999 = Some tree_y999"
  by (simp_all add: example_env_def example_fromstring_def doc_defs)

lemma not_blank_examples:
  "py_strip doc_a \<noteq> []" "py_strip doc_b \<noteq> []" "py_strip doc_mixed \<noteq> []" "py_strip doc_z \<noteq> []"
  "py_strip doc_orphan \<noteq> []" "py_strip doc_nochannel \<noteq> []" "py_strip doc_unclosed \<noteq> []"
  "py_strip doc_y999 \<noteq> []"
  unfolding doc_defs by (rule py_strip_Cons, simp add: is_space_def whitespace_def)+

lemma hash_example: "get_content_hash example_env content = content"
  by (simp add: get_content_hash_def example_env_def)

lemma collision_free_example: "collision_free example_env content"
  by (simp add: collision_free_def hash_example)

lemma parse_epg_example_init:
  assumes "py_strip content \<noteq> []" "fromstring example_env content = Some root"
  shows "parse_epg example_env (Some content) True init_state =
           (parse_root example_env root,
            \<lparr>epg_cache = [content \<mapsto> parse_root example_env root], parse_count = 1\<rparr>)"
  using parse_epg_miss_parsed[OF assms(1) _ assms(2), of init_state]
  by (simp add: init_state_def hash_example)

lemma main_loop_example:
  "fst (main_loop example_env epg_contents agg init_state) =
     foldl merge_step agg
       (map (\<lambda>content. if py_strip content = [] then ([], [])
               else case fromstring example_env content of None \<Rightarrow> ([], [])
                    | Some root \<Rightarrow> parse_root example_env root)
            (concat (map (\<lambda>c. case c of None \<Rightarrow> [] | Some content \<Rightarrow> [content]) epg_contents)))"
  by (simp add: main_loop_merge parse_all_transparent[OF cache_inv_init] collision_free_example)

lemma main_loop_a_b:
  "fst (main_loop example_env [Some doc_a, None, Some doc_b] ([], []) init_state) =
     ([(''ch1'', Some ''B Name'')],
      [(''ch1'',
        [Element ''programme''
           [(''channel'', ''ch1''), (''start'', ''20240101060000 +0800''), (''stop'', ''20240101070000 +0800'')]
           None [Element ''title'' [] (Some ''Morning'') []],
         Element ''programme''
           [(''channel'', ''ch1''), (''start'', ''20240101070000 +0800''), (''stop'', ''20240101080000 +0800'')]
           None [Element ''title'' [] (Some ''Noon'') [], Element ''desc'' [] (Some ''News'') []]])])"
  by (subst main_loop_example)
     (simp add: not_blank_examples fromstring_examples
        parse_root_a parse_root_b merge_step_def dd_extend_def dd_get_def)

text \<open>The fingerprint of 21 characters: what it changes and what it does not.\<close>

lemma parse_root_colliding: "parse_root colliding_env root = parse_root example_env root"
proof -
  have sel: "cc_convert colliding_env = cc_convert example_env"
    "strptime colliding_env = strptime example_env"
    "strftime_Y colliding_env = strftime_Y example_env"
    by (simp_all add: colliding_env_def)
  have t: "transform2_zh_hans colliding_env = transform2_zh_hans example_env"
    unfolding fun_eq_iff transform2_zh_hans_def sel by simp
  have n: "new_programme colliding_env = new_programme example_env"
    unfolding fun_eq_iff new_programme_def strftime_0800_def wall_clock_def t sel by simp
  have c: "channel_step colliding_env = channel_step example_env"
    unfolding fun_eq_iff channel_step_def t by simp
  have p: "programme_step colliding_env = programme_step example_env"
    unfolding fun_eq_iff programme_step_def n by simp
  have "channel_loop colliding_env acc es = channel_loop example_env acc es" for acc es
    by (induction es arbitrary: acc) (simp_all add: c)
  moreover have "programme_loop colliding_env acc es = programme_loop example_env acc es" for acc es
    by (induction es arbitrary: acc) (simp_all add: p)
  ultimately show ?thesis
    by (simp add: parse_root_def)
qed

lemma colliding_examples:
  "fromstring colliding_env content = fromstring example_env content"
  "get_content_hash colliding_env content = take 21 content"
  "take 21 doc_mixed = take 21 doc_b"
  "take 21 doc_unclosed = take 21 doc_b"
  by (simp_all add: colliding_env_def get_content_hash_def doc_defs)

text \<open>
  After the parse of \<open>doc_b\<close>, a text with the same first 21 characters gets the result
  of \<open>doc_b\<close> from the cache.
\<close>

lemma parse_epg_colliding:
  assumes "py_strip content \<noteq> []"
  shows "fst (parse_epg colliding_env (Some doc_b) use_cache init_state) = parse_root example_env tree_b \<and>
         (take 21 content = take 21 doc_b \<longrightarrow>
            parse_epg colliding_env (Some content) True
              (snd (parse_epg colliding_env (Some doc_b) True init_state)) =
            (parse_root example_env tree_b,
             snd (parse_epg colliding_env (Some doc_b) True init_state)))"
proof -
  have miss: "epg_cache init_state (get_content_hash colliding_env doc_b) = None"
    by (simp add: init_state_def)
  have f: "fromstring colliding_env doc_b = Some tree_b"
    by (simp add: colliding_examples fromstring_examples)
  have first: "fst (parse_epg colliding_env (Some doc_b) use_cache init_state) = parse_root example_env tree_b"
    using parse_epg_miss_parsed[OF not_blank_examples(2) miss f]
      parse_epg_uncached_parsed[OF not_blank_examples(2) f, of init_state]
    by (cases use_cache) (simp_all add: parse_root_colliding)
  have cached: "epg_cache (snd (parse_epg colliding_env (Some doc_b) True init_state))
      (get_content_hash colliding_env content) = Some (parse_root example_env tree_b)"
    if "take 21 content = take 21 doc_b"
    using that parse_epg_miss_parsed[OF not_blank_examples(2) miss f]
    by (simp add: parse_root_colliding colliding_examples(2))
  from first parse_epg_hit[OF assms cached] show ?thesis
    by simp
qed

section \<open>strptime on the grammar of the specification\<close>

text \<open>
  A match of an expression uses a prefix of the input, of a length within the bounds.
\<close>

lemma rx_match_prefix:
  "r \<in> set (rx_match g s) \<Longrightarrow>
   \<exists>pre. s = pre @ r \<and> rx_min g \<le> length pre \<and> length pre \<le> rx_max g"
proof (induction g arbitrary: s r)
  case (Chars cs)
  then obtain a where "s = a # r" "a \<in> set cs"
    by (cases s) (auto split: if_splits)
  then have "s = [a] @ r \<and> rx_min (Chars cs) \<le> length [a] \<and> length [a] \<le> rx_max (Chars cs)"
    by simp
  then show ?case by blast
next
  case (Seq a b)
  from Seq.prems obtain t where t: "t \<in> set (rx_match a s)" "r \<in> set (rx_match b t)"
    by auto
  from Seq.IH(1)[OF t(1)] obtain p where
    p: "s = p @ t" "rx_min a \<le> length p" "length p \<le> rx_max a"
    by blast
  from Seq.IH(2)[OF t(2)] obtain q where
    q: "t = q @ r" "rx_min b \<le> length q" "length q \<le> rx_max b"
    by blast
  have "s = (p @ q) @ r \<and> rx_min (Seq a b) \<le> length (p @ q) \<and> length (p @ q) \<le> rx_max (Seq a b)"
    using p q by auto
  then show ?case by blast
next
  case (Alt a b)
  from Alt.prems have "r \<in> set (rx_match a s) \<or> r \<in> set (rx_match b s)"
    by auto
  then show ?case
  proof
    assume "r \<in> set (rx_match a s)"
    from Alt.IH(1)[OF this] show ?thesis by auto
  next
    assume "r \<in> set (rx_match b s)"
    from Alt.IH(2)[OF this] show ?thesis by auto
  qed
next
  case (Opt a)
  from Opt.prems have "r \<in> set (rx_match a s) \<or> r = s"
    by auto
  then show ?case
  proof
    assume "r \<in> set (rx_match a s)"
    from Opt.IH[OF this] show ?thesis by auto
  next
    assume "r = s"
    then have "s = [] @ r \<and> rx_min (Opt a) \<le> length ([]::string) \<and>
        length ([]::string) \<le> rx_max (Opt a)"
      by simp
    then show ?thesis by blast
  qed
qed

lemma rx_bounds:
  "rx_min rx_Y = 4" "rx_max rx_Y = 4" "rx_max rx_m = 2" "rx_max rx_d = 2" "rx_max rx_H = 2"
  "rx_max rx_M = 2" "rx_max rx_S = 2"
  by (simp_all add: rx_Y_def rx_m_def rx_d_def rx_H_def rx_M_def rx_S_def rx_digit_def)

lemma rx_z_first:
  assumes "r \<in> set (rx_match rx_z s)"
  shows "\<exists>a t. s = a # t \<and> (a = CHR ''+'' \<or> a = CHR ''-'' \<or> a = CHR ''Z'')"
proof -
  obtain x where x: "rx_z = Alt (Seq (Chars ''+-'') x) (Chars ''Z'')"
    by (simp add: rx_z_def)
  from assms have "(\<exists>t. t \<in> set (rx_match (Chars ''+-'') s)) \<or> r \<in> set (rx_match (Chars ''Z'') s)"
    unfolding x by auto
  then show ?thesis
    by (cases s) (auto split: if_splits)
qed

lemma groups_match_ConsD:
  assumes "(found, rest) \<in> set (groups_match (g # gs) s)"
  obtains r found' where "r \<in> set (rx_match g s)" "found = take (length s - length r) s # found'"
    "(found', rest) \<in> set (groups_match gs r)"
  using assms by auto

lemma digit_facts:
  assumes "a \<in> digits"
  shows "digit_char (dv a) = a" "dv a < 10" "\<not> is_space a" "a \<in> set ''0123456789''"
    "a \<noteq> CHR ''+''" "a \<noteq> CHR ''-''" "a \<noteq> CHR ''Z''"
  using assms by (auto simp: digits_def digit_char_def dv_def is_space_def whitespace_def)

lemma digit_cases:
  assumes "a \<in> digits"
  shows "a = CHR ''0'' \<or> a = CHR ''1'' \<or> a = CHR ''2'' \<or> a = CHR ''3'' \<or> a = CHR ''4'' \<or>
         a = CHR ''5'' \<or> a = CHR ''6'' \<or> a = CHR ''7'' \<or> a = CHR ''8'' \<or> a = CHR ''9''"
  using assms by (simp add: digits_def)

lemma py_int_two:
  assumes "a \<in> digits" "b \<in> digits"
  shows "py_int [a, b] = Some (10 * dv a + dv b)"
  using digit_facts(3,4)[OF assms(1)] digit_facts(3,4)[OF assms(2)]
  by (simp add: py_int_def py_strip_def dv_def)

lemma py_int_four:
  assumes "a \<in> digits" "b \<in> digits" "c \<in> digits" "d \<in> digits"
  shows "py_int [a, b, c, d] = Some (1000 * dv a + 100 * dv b + 10 * dv c + dv d)"
  using digit_facts(3,4)[OF assms(1)] digit_facts(3,4)[OF assms(2)]
    digit_facts(3,4)[OF assms(3)] digit_facts(3,4)[OF assms(4)]
  by (simp add: py_int_def py_strip_def dv_def)

lemma digit_char_mod: "digit_char (10 * n + dv a) = digit_char (dv a)"
  by (simp add: digit_char_def)

lemma pad2_two:
  assumes "a \<in> digits" "b \<in> digits"
  shows "pad2 (10 * dv a + dv b) = [a, b]"
proof -
  have "(10 * dv a + dv b) div 10 = dv a"
    using digit_facts(2)[OF assms(2)] by simp
  then show ?thesis
    by (simp add: pad2_def digit_char_mod digit_facts(1)[OF assms(1)] digit_facts(1)[OF assms(2)])
qed

lemma glibc_Y_digit:
  assumes "a \<in> digits"
  shows "glibc_Y (dv a) = [a]"
  using digit_facts(2)[OF assms]
  by (subst glibc_Y.simps) (simp add: digit_char_mod[of 0 a, simplified] assms digit_facts(1)[OF assms])

lemma glibc_Y_snoc:
  assumes "0 < m" "d \<in> digits"
  shows "glibc_Y (10 * m + dv d) = glibc_Y m @ [d]"
proof -
  have "digit_char (10 * m + dv d) = d"
    by (simp only: digit_char_mod digit_facts(1)[OF assms(2)])
  moreover have "(10 * m + dv d) div 10 = m"
    using digit_facts(2)[OF assms(2)] by simp
  moreover have "\<not> 10 * m + dv d < 10"
    using assms(1) by simp
  ultimately show ?thesis
    by (subst glibc_Y.simps) (simp only: if_False)
qed

lemma glibc_Y_four:
  assumes "a \<in> digits" "b \<in> digits" "c \<in> digits" "d \<in> digits" "a \<noteq> CHR ''0''"
  shows "glibc_Y (1000 * dv a + 100 * dv b + 10 * dv c + dv d) = [a, b, c, d]"
proof -
  have pos: "0 < dv a"
    using digit_cases[OF assms(1)] assms(5) by (auto simp: dv_def)
  have "1000 * dv a + 100 * dv b + 10 * dv c + dv d =
      10 * (10 * (10 * dv a + dv b) + dv c) + dv d"
    by simp
  then show ?thesis
    using pos by (simp only: glibc_Y_snoc assms glibc_Y_digit add_pos_nonneg
        mult_pos_pos zero_less_numeral zero_le append_Cons append_Nil)
qed

lemma spec_grammar_digit:
  assumes "spec_grammar s" "i < 14"
  shows "s ! i \<in> digits"
proof -
  from assms(1) have len: "length s = 19" and d: "list_all (\<lambda>c. c \<in> set ''0123456789'') (take 14 s)"
    by (simp_all add: spec_grammar_def)
  from d have "\<forall>c \<in> set (take 14 s). c \<in> digits"
    by (simp add: list_all_iff digits_def)
  moreover have "take 14 s ! i \<in> set (take 14 s)"
    using len assms(2) by (intro nth_mem) simp
  ultimately show ?thesis
    using assms(2) by simp
qed

lemma spec_grammar_offset:
  assumes "spec_grammar s" "15 \<le> i" "i < 19"
  shows "s ! i \<in> digits"
proof -
  from assms(1) have len: "length s = 19" and d: "list_all (\<lambda>c. c \<in> set ''0123456789'') (drop 15 s)"
    by (simp_all add: spec_grammar_def)
  from d have "\<forall>c \<in> set (drop 15 s). c \<in> digits"
    by (simp add: list_all_iff digits_def)
  moreover have "drop 15 s ! (i - 15) \<in> set (drop 15 s)"
    using len assms(2,3) by (intro nth_mem) simp
  ultimately show ?thesis
    using assms(2,3) len by simp
qed

text \<open>
  On a timestamp of the specification's grammar every match of the format splits the
  fourteen digits into groups of four and five times two.
\<close>

lemma groups_match_aligned:
  assumes g: "spec_grammar s" and m: "(found, []) \<in> set (groups_match format_regex s)"
  shows "found = [take 4 s, take 2 (drop 4 s), take 2 (drop 6 s), take 2 (drop 8 s),
                  take 2 (drop 10 s), take 2 (drop 12 s), drop 14 s]"
proof -
  from m obtain r1 f1 where 1: "r1 \<in> set (rx_match rx_Y s)" "found = take (length s - length r1) s # f1"
    "(f1, []) \<in> set (groups_match [rx_m, rx_d, rx_H, rx_M, rx_S, rx_z] r1)"
    unfolding format_regex_def by (rule groups_match_ConsD)
  from 1(3) obtain r2 f2 where 2: "r2 \<in> set (rx_match rx_m r1)" "f1 = take (length r1 - length r2) r1 # f2"
    "(f2, []) \<in> set (groups_match [rx_d, rx_H, rx_M, rx_S, rx_z] r2)"
    by (rule groups_match_ConsD)
  from 2(3) obtain r3 f3 where 3: "r3 \<in> set (rx_match rx_d r2)" "f2 = take (length r2 - length r3) r2 # f3"
    "(f3, []) \<in> set (groups_match [rx_H, rx_M, rx_S, rx_z] r3)"
    by (rule groups_match_ConsD)
  from 3(3) obtain r4 f4 where 4: "r4 \<in> set (rx_match rx_H r3)" "f3 = take (length r3 - length r4) r3 # f4"
    "(f4, []) \<in> set (groups_match [rx_M, rx_S, rx_z] r4)"
    by (rule groups_match_ConsD)
  from 4(3) obtain r5 f5 where 5: "r5 \<in> set (rx_match rx_M r4)" "f4 = take (length r4 - length r5) r4 # f5"
    "(f5, []) \<in> set (groups_match [rx_S, rx_z] r5)"
    by (rule groups_match_ConsD)
  from 5(3) obtain r6 f6 where 6: "r6 \<in> set (rx_match rx_S r5)" "f5 = take (length r5 - length r6) r5 # f6"
    "(f6, []) \<in> set (groups_match [rx_z] r6)"
    by (rule groups_match_ConsD)
  from 6(3) obtain r7 f7 where 7: "r7 \<in> set (rx_match rx_z r6)" "f6 = take (length r6 - length r7) r6 # f7"
    "(f7, []) \<in> set (groups_match [] r7)"
    by (rule groups_match_ConsD)
  from 7(3) have fin: "f7 = []" "r7 = []"
    by simp_all
  from rx_match_prefix[OF 1(1)] obtain p1 where p1: "s = p1 @ r1" "length p1 = 4"
    by (auto simp: rx_bounds)
  from rx_match_prefix[OF 2(1)] obtain p2 where p2: "r1 = p2 @ r2" "length p2 \<le> 2"
    by (auto simp: rx_bounds)
  from rx_match_prefix[OF 3(1)] obtain p3 where p3: "r2 = p3 @ r3" "length p3 \<le> 2"
    by (auto simp: rx_bounds)
  from rx_match_prefix[OF 4(1)] obtain p4 where p4: "r3 = p4 @ r4" "length p4 \<le> 2"
    by (auto simp: rx_bounds)
  from rx_match_prefix[OF 5(1)] obtain p5 where p5: "r4 = p5 @ r5" "length p5 \<le> 2"
    by (auto simp: rx_bounds)
  from rx_match_prefix[OF 6(1)] obtain p6 where p6: "r5 = p6 @ r6" "length p6 \<le> 2"
    by (auto simp: rx_bounds)
  from rx_z_first[OF 7(1)] obtain a t where z: "r6 = a # t"
    "a = CHR ''+'' \<or> a = CHR ''-'' \<or> a = CHR ''Z''"
    by blast
  let ?k = "length p1 + length p2 + length p3 + length p4 + length p5 + length p6"
  have s: "s = (p1 @ p2 @ p3 @ p4 @ p5 @ p6) @ a # t"
    using p1(1) p2(1) p3(1) p4(1) p5(1) p6(1) z(1) by simp
  have at: "s ! ?k = a"
    by (subst s) (simp add: nth_append)
  have "\<not> ?k < 14"
  proof
    assume "?k < 14"
    from spec_grammar_digit[OF g this] have "a \<in> digits"
      by (simp only: at)
    with z(2) show False
      using digit_facts(5-7) by blast
  qed
  with p1(2) p2(2) p3(2) p4(2) p5(2) p6(2)
  have len: "length p2 = 2" "length p3 = 2" "length p4 = 2" "length p5 = 2" "length p6 = 2"
    by simp_all
  have parts: "take 4 s = p1" "take 2 (drop 4 s) = p2" "take 2 (drop 6 s) = p3"
    "take 2 (drop 8 s) = p4" "take 2 (drop 10 s) = p5" "take 2 (drop 12 s) = p6" "drop 14 s = r6"
    using p1(2) len by (simp_all add: s z(1))
  have "found = [p1, p2, p3, p4, p5, p6, r6]"
    using p1 p2 p3 p4 p5 p6 by (simp add: 1(2) 2(2) 3(2) 4(2) 5(2) 6(2) 7(2) fin)
  then show ?thesis
    by (simp only: parts)
qed

text \<open>
  The classes of the expression on digits, by the value of the digit; with them a match
  is computed without a case for every digit.
\<close>

lemma Chars_step: "rx_match (Chars cs) (a # r) = (if in_class cs a then [r] else [])"
  by (simp add: in_class_def)

lemma Chars_Nil: "rx_match (Chars cs) [] = []"
  by simp

lemma class_dv:
  assumes "a \<in> digits"
  shows "in_class ''0123456789'' a" "in_class ''1'' a \<longleftrightarrow> dv a = 1" "in_class ''012'' a \<longleftrightarrow> dv a \<le> 2"
    "in_class ''0'' a \<longleftrightarrow> dv a = 0" "in_class ''123456789'' a \<longleftrightarrow> 1 \<le> dv a"
    "in_class ''3'' a \<longleftrightarrow> dv a = 3" "in_class ''01'' a \<longleftrightarrow> dv a \<le> 1"
    "in_class ''12'' a \<longleftrightarrow> 1 \<le> dv a \<and> dv a \<le> 2" "in_class ''2'' a \<longleftrightarrow> dv a = 2"
    "in_class ''0123'' a \<longleftrightarrow> dv a \<le> 3" "in_class ''012345'' a \<longleftrightarrow> dv a \<le> 5"
    "in_class ''6'' a \<longleftrightarrow> dv a = 6" "\<not> in_class '':'' a" "\<not> in_class '' '' a"
  using digit_cases[OF assms] by (elim disjE; simp add: in_class_def dv_def)+

lemma sign_class: "in_class ''+-'' CHR ''+''" "in_class ''+-'' CHR ''-''"
  by (simp_all add: in_class_def)

lemma rx_Y_hd:
  assumes "a \<in> digits" "b \<in> digits" "c \<in> digits" "d \<in> digits"
  shows "hd_is (rx_match rx_Y (a # b # c # d # r)) r"
  by (simp add: rx_Y_def rx_digit_def Chars_step class_dv(1) assms hd_is_def del: rx_match.simps(1))

lemma rx_m_hd:
  assumes "a \<in> digits" "b \<in> digits" "1 \<le> 10 * dv a + dv b" "10 * dv a + dv b \<le> 12"
  shows "hd_is (rx_match rx_m (a # b # r)) r"
  using assms(3,4) digit_facts(2)[OF assms(2)]
  by (simp add: rx_m_def Chars_step Chars_Nil class_dv[OF assms(1)] class_dv[OF assms(2)] hd_is_def
           del: rx_match.simps(1))

lemma rx_d_hd:
  assumes "a \<in> digits" "b \<in> digits" "1 \<le> 10 * dv a + dv b" "10 * dv a + dv b \<le> 31"
  shows "hd_is (rx_match rx_d (a # b # r)) r"
  using assms(3,4) digit_facts(2)[OF assms(2)]
  by (simp add: rx_d_def rx_digit_def Chars_step Chars_Nil class_dv[OF assms(1)] class_dv[OF assms(2)]
           hd_is_def del: rx_match.simps(1))

lemma rx_H_hd:
  assumes "a \<in> digits" "b \<in> digits" "10 * dv a + dv b \<le> 23"
  shows "hd_is (rx_match rx_H (a # b # r)) r"
  using assms(3) digit_facts(2)[OF assms(2)]
  by (simp add: rx_H_def rx_digit_def Chars_step Chars_Nil class_dv[OF assms(1)] class_dv[OF assms(2)]
           hd_is_def del: rx_match.simps(1))

lemma rx_M_hd:
  assumes "a \<in> digits" "b \<in> digits" "10 * dv a + dv b \<le> 59"
  shows "hd_is (rx_match rx_M (a # b # r)) r"
  using assms(3) digit_facts(2)[OF assms(2)]
  by (simp add: rx_M_def rx_digit_def Chars_step Chars_Nil class_dv[OF assms(1)] class_dv[OF assms(2)]
           hd_is_def del: rx_match.simps(1))

lemma rx_S_hd:
  assumes "a \<in> digits" "b \<in> digits" "10 * dv a + dv b \<le> 59"
  shows "hd_is (rx_match rx_S (a # b # r)) r"
  using assms(3) digit_facts(2)[OF assms(2)]
  by (simp add: rx_S_def rx_digit_def Chars_step Chars_Nil class_dv[OF assms(1)] class_dv[OF assms(2)]
           hd_is_def del: rx_match.simps(1))

lemma rx_z_hd:
  assumes "sg = CHR ''+'' \<or> sg = CHR ''-''" "a \<in> digits" "b \<in> digits" "c \<in> digits" "d \<in> digits"
    "10 * dv c + dv d \<le> 59"
  shows "hd_is (rx_match rx_z [sg, a, b, c, d]) []"
  using assms(1,6) digit_facts(2)[OF assms(5)]
  by (auto simp add: rx_z_def rx_upto5_def rx_digit_def Chars_step Chars_Nil sign_class
        class_dv[OF assms(2)] class_dv[OF assms(3)] class_dv[OF assms(4)] class_dv[OF assms(5)]
        hd_is_def simp del: rx_match.simps(1))

lemma groups_match_hd:
  assumes "hd_is (rx_match g s) r" "hd_is (groups_match gs r) (found, rest)"
  shows "hd_is (groups_match (g # gs) s) (take (length s - length r) s # found, rest)"
  using assms by (auto simp: hd_is_def)

lemma days_in_month_le: "days_in_month y m \<le> 31"
  by (simp add: days_in_month_def)

lemma py_int_zeros: "py_int (replicate 6 CHR ''0'') = Some 0"
  by (simp add: replicate_6 py_int_def py_strip_def is_space_def whitespace_def)

lemma parse_z_signed:
  assumes "sg = CHR ''+'' \<or> sg = CHR ''-''" "a \<in> digits" "b \<in> digits" "c \<in> digits" "d \<in> digits"
  shows "parse_z [sg, a, b, c, d] =
           Some ((if sg = CHR ''-'' then - 1 else 1) *
                   int ((10 * dv a + dv b) * 60 * 60 + (10 * dv c + dv d) * 60), 0)"
proof -
  have c: "c \<noteq> CHR '':''"
    using class_dv(13)[OF assms(4)] by (simp add: in_class_def)
  show ?thesis
    using assms(1) c
    by (auto simp: parse_z_def Let_def py_int_two assms py_int_zeros)
qed

text \<open>
  An accepted timestamp of the grammar is written back with its own ten digits of the
  month, day, hour, minute and second, after the year as the C library writes it.
\<close>

lemma strptime_grammar_digits:
  assumes g: "spec_grammar s" and p: "py_strptime s = Some dt"
  shows "year dt = decimal (take 4 s) \<and>
         strftime_0800 env dt = strftime_Y env (year dt) @ take 10 (drop 4 s) @ '' +0800''"
proof -
  from g have len: "length s = 19"
    by (simp add: spec_grammar_def)
  then obtain c0 c1 c2 c3 c4 c5 c6 c7 c8 c9 c10 c11 c12 c13 z where
    s: "s = c0 # c1 # c2 # c3 # c4 # c5 # c6 # c7 # c8 # c9 # c10 # c11 # c12 # c13 # z"
    by (auto simp: eval_nat_numeral length_Suc_conv)
  have d: "c0 \<in> digits" "c1 \<in> digits" "c2 \<in> digits" "c3 \<in> digits" "c4 \<in> digits"
    "c5 \<in> digits" "c6 \<in> digits" "c7 \<in> digits" "c8 \<in> digits" "c9 \<in> digits"
    "c10 \<in> digits" "c11 \<in> digits" "c12 \<in> digits" "c13 \<in> digits"
    using spec_grammar_digit[OF g, of 0] spec_grammar_digit[OF g, of 1] spec_grammar_digit[OF g, of 2]
      spec_grammar_digit[OF g, of 3] spec_grammar_digit[OF g, of 4] spec_grammar_digit[OF g, of 5]
      spec_grammar_digit[OF g, of 6] spec_grammar_digit[OF g, of 7] spec_grammar_digit[OF g, of 8]
      spec_grammar_digit[OF g, of 9] spec_grammar_digit[OF g, of 10] spec_grammar_digit[OF g, of 11]
      spec_grammar_digit[OF g, of 12] spec_grammar_digit[OF g, of 13]
    by (simp_all add: s)
  from p obtain found more where gm: "groups_match format_regex s = (found, []) # more"
    by (auto simp: py_strptime_def split: list.splits if_splits)
  then have "(found, []) \<in> set (groups_match format_regex s)"
    by simp
  from groups_match_aligned[OF g this]
  have found: "found = [[c0, c1, c2, c3], [c4, c5], [c6, c7], [c8, c9], [c10, c11], [c12, c13], z]"
    by (simp add: s)
  let ?Y = "1000 * dv c0 + 100 * dv c1 + 10 * dv c2 + dv c3"
  have fields: "those (map py_int (butlast found)) =
      Some [?Y, 10 * dv c4 + dv c5, 10 * dv c6 + dv c7, 10 * dv c8 + dv c9,
            10 * dv c10 + dv c11, 10 * dv c12 + dv c13]"
    by (simp add: found py_int_four d py_int_two)
  from p obtain off frac where
    "dt = \<lparr>year = ?Y, month = 10 * dv c4 + dv c5, day = 10 * dv c6 + dv c7,
           hour = 10 * dv c8 + dv c9, minute = 10 * dv c10 + dv c11, second = 10 * dv c12 + dv c13,
           gmtoff = off, gmtoff_fraction = frac\<rparr>"
    unfolding py_strptime_def gm
    by (auto simp: fields split: option.splits prod.splits if_splits)
  then have "year dt = ?Y"
    "wall_clock env dt = strftime_Y env ?Y @ [c4, c5, c6, c7, c8, c9, c10, c11, c12, c13]"
    by (simp_all add: wall_clock_def d pad2_two)
  then show ?thesis
    by (simp add: strftime_0800_def s decimal_def)
qed

text \<open>
  With glibc and a year from 1000 on, these are the fourteen digits of the timestamp.
\<close>

lemma strptime_grammar_glibc:
  assumes g: "spec_grammar s" and p: "py_strptime s = Some dt" and y: "hd s \<noteq> CHR ''0''"
  shows "strftime_0800 example_env dt = take 14 s @ '' +0800''"
proof -
  from g have len: "length s = 19"
    by (simp add: spec_grammar_def)
  then obtain c0 c1 c2 c3 z where s: "s = c0 # c1 # c2 # c3 # z"
    by (auto simp: eval_nat_numeral length_Suc_conv)
  have d: "c0 \<in> digits" "c1 \<in> digits" "c2 \<in> digits" "c3 \<in> digits"
    using spec_grammar_digit[OF g, of 0] spec_grammar_digit[OF g, of 1] spec_grammar_digit[OF g, of 2]
      spec_grammar_digit[OF g, of 3]
    by (simp_all add: s)
  have "decimal (take 4 s) = 1000 * dv c0 + 100 * dv c1 + 10 * dv c2 + dv c3"
    by (simp add: s decimal_def)
  with glibc_Y_four[OF d] y have "glibc_Y (decimal (take 4 s)) = take 4 s"
    by (simp add: s)
  moreover have "take 4 s @ take 10 (drop 4 s) = take 14 s"
    using len by (simp add: take_add[of 4 10 s, simplified, symmetric])
  ultimately show ?thesis
    using strptime_grammar_digits[OF g p, of example_env]
    by (simp add: example_env_def)
qed

text \<open>
  Every timestamp of the grammar with fields in range is accepted.
\<close>

lemma strptime_grammar_accepted:
  assumes "spec_valid s"
  shows "\<exists>dt. py_strptime s = Some dt \<and> year dt = decimal (take 4 s) \<and>
              strftime_0800 env dt = strftime_Y env (year dt) @ take 10 (drop 4 s) @ '' +0800''"
proof -
  from assms have g: "spec_grammar s"
    by (simp add: spec_valid_def)
  then have len: "length s = 19"
    by (simp add: spec_grammar_def)
  then obtain c0 c1 c2 c3 c4 c5 c6 c7 c8 c9 c10 c11 c12 c13 sg o1 o2 o3 o4 where
    s: "s = [c0, c1, c2, c3, c4, c5, c6, c7, c8, c9, c10, c11, c12, c13, sg, o1, o2, o3, o4]"
    by (auto simp: eval_nat_numeral length_Suc_conv)
  have d: "c0 \<in> digits" "c1 \<in> digits" "c2 \<in> digits" "c3 \<in> digits" "c4 \<in> digits"
    "c5 \<in> digits" "c6 \<in> digits" "c7 \<in> digits" "c8 \<in> digits" "c9 \<in> digits"
    "c10 \<in> digits" "c11 \<in> digits" "c12 \<in> digits" "c13 \<in> digits"
    using spec_grammar_digit[OF g, of 0] spec_grammar_digit[OF g, of 1] spec_grammar_digit[OF g, of 2]
      spec_grammar_digit[OF g, of 3] spec_grammar_digit[OF g, of 4] spec_grammar_digit[OF g, of 5]
      spec_grammar_digit[OF g, of 6] spec_grammar_digit[OF g, of 7] spec_grammar_digit[OF g, of 8]
      spec_grammar_digit[OF g, of 9] spec_grammar_digit[OF g, of 10] spec_grammar_digit[OF g, of 11]
      spec_grammar_digit[OF g, of 12] spec_grammar_digit[OF g, of 13]
    by (simp_all add: s)
  have od: "o1 \<in> digits" "o2 \<in> digits" "o3 \<in> digits" "o4 \<in> digits"
    using spec_grammar_offset[OF g, of 15] spec_grammar_offset[OF g, of 16]
      spec_grammar_offset[OF g, of 17] spec_grammar_offset[OF g, of 18]
    by (simp_all add: s)
  from g have sg: "sg = CHR ''+'' \<or> sg = CHR ''-''"
    by (simp add: spec_grammar_def s)
  let ?Y = "1000 * dv c0 + 100 * dv c1 + 10 * dv c2 + dv c3"
  let ?m = "10 * dv c4 + dv c5" and ?d = "10 * dv c6 + dv c7" and ?H = "10 * dv c8 + dv c9"
  let ?M = "10 * dv c10 + dv c11" and ?S = "10 * dv c12 + dv c13"
  let ?oh = "10 * dv o1 + dv o2" and ?om = "10 * dv o3 + dv o4"
  from assms have v: "1 \<le> ?Y" "1 \<le> ?m" "?m \<le> 12" "1 \<le> ?d" "?d \<le> days_in_month ?Y ?m"
    "?H \<le> 23" "?M \<le> 59" "?S \<le> 59" "?oh \<le> 23" "?om \<le> 59"
    by (simp_all add: spec_valid_def s decimal_def)
  from v(5) have d31: "?d \<le> 31"
    using days_in_month_le[of ?Y ?m] by simp
  have "hd_is (groups_match [] []) ([], [])"
    by (simp add: hd_is_def)
  from groups_match_hd[OF rx_z_hd[OF sg od v(10)] this]
  have "hd_is (groups_match [rx_z] [sg, o1, o2, o3, o4]) ([[sg, o1, o2, o3, o4]], [])"
    by simp
  from groups_match_hd[OF rx_S_hd[OF d(13,14) v(8)] this]
  have "hd_is (groups_match [rx_S, rx_z] [c12, c13, sg, o1, o2, o3, o4])
          ([[c12, c13], [sg, o1, o2, o3, o4]], [])"
    by simp
  from groups_match_hd[OF rx_M_hd[OF d(11,12) v(7)] this]
  have "hd_is (groups_match [rx_M, rx_S, rx_z] [c10, c11, c12, c13, sg, o1, o2, o3, o4])
          ([[c10, c11], [c12, c13], [sg, o1, o2, o3, o4]], [])"
    by simp
  from groups_match_hd[OF rx_H_hd[OF d(9,10) v(6)] this]
  have "hd_is (groups_match [rx_H, rx_M, rx_S, rx_z] [c8, c9, c10, c11, c12, c13, sg, o1, o2, o3, o4])
          ([[c8, c9], [c10, c11], [c12, c13], [sg, o1, o2, o3, o4]], [])"
    by simp
  from groups_match_hd[OF rx_d_hd[OF d(7,8) v(4) d31] this]
  have "hd_is (groups_match [rx_d, rx_H, rx_M, rx_S, rx_z]
             [c6, c7, c8, c9, c10, c11, c12, c13, sg, o1, o2, o3, o4])
          ([[c6, c7], [c8, c9], [c10, c11], [c12, c13], [sg, o1, o2, o3, o4]], [])"
    by simp
  from groups_match_hd[OF rx_m_hd[OF d(5,6) v(2,3)] this]
  have "hd_is (groups_match [rx_m, rx_d, rx_H, rx_M, rx_S, rx_z]
             [c4, c5, c6, c7, c8, c9, c10, c11, c12, c13, sg, o1, o2, o3, o4])
          ([[c4, c5], [c6, c7], [c8, c9], [c10, c11], [c12, c13], [sg, o1, o2, o3, o4]], [])"
    by simp
  from groups_match_hd[OF rx_Y_hd[OF d(1-4)] this]
  have "hd_is (groups_match format_regex s)
          ([[c0, c1, c2, c3], [c4, c5], [c6, c7], [c8, c9], [c10, c11], [c12, c13],
            [sg, o1, o2, o3, o4]], [])"
    by (simp add: format_regex_def s)
  then obtain more where gm: "groups_match format_regex s =
      ([[c0, c1, c2, c3], [c4, c5], [c6, c7], [c8, c9], [c10, c11], [c12, c13],
        [sg, o1, o2, o3, o4]], []) # more"
    by (auto simp: hd_is_def)
  have ints: "py_int [c0, c1, c2, c3] = Some ?Y" "py_int [c4, c5] = Some ?m" "py_int [c6, c7] = Some ?d"
    "py_int [c8, c9] = Some ?H" "py_int [c10, c11] = Some ?M" "py_int [c12, c13] = Some ?S"
    by (simp_all add: py_int_four d py_int_two)
  obtain off where off: "parse_z [sg, o1, o2, o3, o4] = Some (off, 0)"
    "off = int (?oh * 60 * 60 + ?om * 60) \<or> off = - int (?oh * 60 * 60 + ?om * 60)"
    using parse_z_signed[OF sg od] by (cases "sg = CHR ''-''") simp_all
  have "int (?oh * 60 * 60 + ?om * 60) < 86400"
    using v(9,10) by simp
  with off(2) have "\<bar>off * 1000000 + 0\<bar> < 86400 * 1000000"
    by auto
  then have "py_strptime s \<noteq> None"
    unfolding py_strptime_def gm
    using v(1,5,8) by (simp add: ints off(1))
  then obtain dt where dt: "py_strptime s = Some dt"
    by auto
  from strptime_grammar_digits[OF g dt, of env] dt show ?thesis
    by blast
qed

section \<open>The guide parser\<close>

text \<open>
  Claim C1, amended. For a well-formed document, parsed through the cache or not, the
  output is the one built from a well-formed document with the fingerprint of the
  input: the input itself when the call goes without the cache, when the cache has
  nothing under the fingerprint, or when no other document has that fingerprint;
  otherwise the document that was stored under it. Of that document: no channel and no
  programme is stored under an empty channel id; a programme is in the output only if
  it was built from a programme element of the document that is admissible (non-empty
  channel id, \<^verbatim>\<open>start\<close> and \<^verbatim>\<open>stop\<close> accepted by \<^verbatim>\<open>datetime.strptime\<close> with the format
  \<^verbatim>\<open>%Y%m%d%H%M%S%z\<close> once their whitespace is removed, a \<^verbatim>\<open>title\<close> child with text); every
  admissible element has its programme in the output, and an element that is not
  admissible is skipped without effect on its siblings.
\<close>

theorem parse_epg_admission:
  assumes "cache_inv env s" "py_strip content \<noteq> []"
    and "fromstring env content = Some root"
    and "parse_epg env (Some content) use_cache s = ((channels, programmes), s')"
  shows "\<exists>content' root'.
           get_content_hash env content' = get_content_hash env content \<and>
           fromstring env content' = Some root' \<and>
           (\<not> use_cache \<or> epg_cache s (get_content_hash env content) = None \<or>
            collision_free env content \<longrightarrow> content' = content \<and> root' = root) \<and>
           [] \<notin> set (dict_keys channels) \<and> [] \<notin> set (dict_keys programmes) \<and>
           (\<forall>k p. (k, p) \<in> set (stored programmes) \<longrightarrow>
              k \<noteq> [] \<and> elem_get p ''channel'' = Some k \<and>
              (\<exists>e \<in> set (elem_findall root' ''programme'').
                 admissible env e \<and> new_programme env e = Some (k, p))) \<and>
           (\<forall>e \<in> set (elem_findall root' ''programme'').
              if admissible env e
              then \<exists>k p. new_programme env e = Some (k, p) \<and> (k, p) \<in> set (stored programmes)
              else new_programme env e = None)"
proof -
  from parse_epg_source[OF assms(1,2), of use_cache] assms(3)
  have "\<exists>content' root'.
      get_content_hash env content' = get_content_hash env content \<and>
      fromstring env content' = Some root' \<and>
      (\<not> use_cache \<or> epg_cache s (get_content_hash env content) = None \<or>
       collision_free env content \<longrightarrow> content' = content) \<and>
      fst (parse_epg env (Some content) use_cache s) = parse_root env root'"
    by (elim disjE conjE exE) (simp, blast)
  then obtain content' root' where
    h: "get_content_hash env content' = get_content_hash env content" and
    f: "fromstring env content' = Some root'" and
    same: "\<not> use_cache \<or> epg_cache s (get_content_hash env content) = None \<or>
           collision_free env content \<longrightarrow> content' = content" and
    r0: "fst (parse_epg env (Some content) use_cache s) = parse_root env root'"
    by blast
  from r0 assms(4) have r: "parse_root env root' = (channels, programmes)"
    by simp
  from same f assms(3) have same': "\<not> use_cache \<or> epg_cache s (get_content_hash env content) = None \<or>
           collision_free env content \<longrightarrow> content' = content \<and> root' = root"
    by auto
  have ch: "[] \<notin> set (dict_keys channels)"
    using parse_root_channel_keys[of env root'] by (simp add: r)
  have st: "set (stored programmes) =
     {(k, p). \<exists>e \<in> set (elem_findall root' ''programme''). new_programme env e = Some (k, p)}"
    using parse_root_stored[of env root'] by (simp add: r)
  have pk: "[] \<notin> set (dict_keys programmes)"
    using parse_root_programme_keys[of env root'] by (auto simp: r dest: new_programme_channel)
  have only_if: "k \<noteq> [] \<and> elem_get p ''channel'' = Some k \<and>
      (\<exists>e \<in> set (elem_findall root' ''programme''). admissible env e \<and> new_programme env e = Some (k, p))"
    if "(k, p) \<in> set (stored programmes)" for k p
  proof -
    from that st obtain e where e: "e \<in> set (elem_findall root' ''programme'')"
      "new_programme env e = Some (k, p)" by auto
    from e(2) have "admissible env e"
      using new_programme_admissible[of env e] by simp
    with e new_programme_channel[OF e(2)] show ?thesis by blast
  qed
  have siblings: "if admissible env e
      then \<exists>k p. new_programme env e = Some (k, p) \<and> (k, p) \<in> set (stored programmes)
      else new_programme env e = None"
    if "e \<in> set (elem_findall root' ''programme'')" for e
  proof (cases "admissible env e")
    case True
    then obtain k p where "new_programme env e = Some (k, p)"
      using new_programme_admissible[of env e] by auto
    with that st True show ?thesis by auto
  next
    case False
    then show ?thesis
      using new_programme_admissible[of env e] by (cases "new_programme env e") auto
  qed
  from h f same' ch pk only_if siblings show ?thesis by blast
qed

theorem parse_epg_admission_witness:
  "cache_inv example_env init_state \<and>
   py_strip doc_mixed \<noteq> [] \<and> fromstring example_env doc_mixed = Some tree_mixed \<and>
   epg_cache init_state (get_content_hash example_env doc_mixed) = None \<and>
   map (admissible example_env) (elem_findall tree_mixed ''programme'') = [False, False, False, True] \<and>
   fst (parse_epg example_env (Some doc_mixed) True init_state) =
     ([(''ch1'', Some [])],
      [(''ch1'', [Element ''programme''
         [(''channel'', ''ch1''), (''start'', ''20240101060000 +0800''), (''stop'', ''20240101070000 +0800'')]
         None [Element ''title'' [] (Some ''Morning'') []]])])"
proof -
  let ?s' = "\<lparr>epg_cache = [doc_mixed \<mapsto> parse_root example_env tree_mixed], parse_count = 1\<rparr>"
  have first: "parse_epg example_env (Some doc_mixed) True init_state =
      (([(''ch1'', Some [])],
        [(''ch1'', [Element ''programme''
           [(''channel'', ''ch1''), (''start'', ''20240101060000 +0800''), (''stop'', ''20240101070000 +0800'')]
           None [Element ''title'' [] (Some ''Morning'') []]])]), ?s')"
    using parse_epg_example_init[OF not_blank_examples(3) fromstring_examples(3)]
    by (simp add: parse_root_mixed)
  have adm: "map (admissible example_env) (elem_findall tree_mixed ''programme'') =
      [False, False, False, True]"
    by (simp add: new_programme_admissible[symmetric] tree_mixed_def elem_findall_def
        new_programme_simps strptime_examples)
  have miss: "epg_cache init_state (get_content_hash example_env doc_mixed) = None"
    by (simp add: init_state_def)
  from parse_epg_admission[OF cache_inv_init not_blank_examples(3) fromstring_examples(3) first]
  show ?thesis
    using first adm miss
    by (simp add: cache_inv_init not_blank_examples fromstring_examples)
qed

text \<open>
  The claim as stated names the grammar \<^verbatim>\<open>YYYYMMDDHHMMSS\<close>, sign, \<^verbatim>\<open>HHMM\<close>. \<^verbatim>\<open>strptime\<close>
  accepts more than that: a programme whose timestamps end in \<^verbatim>\<open>Z\<close> is admitted.
\<close>

theorem parse_epg_admission_counterexample:
  "fromstring example_env doc_z = Some tree_z \<and>
   elem_findall tree_z ''programme'' =
     [Element ''programme''
        [(''channel'', ''ch1''), (''start'', ''20240101060000Z''), (''stop'', ''20240101070000Z'')]
        None [Element ''title'' [] (Some ''Morning'') []]] \<and>
   \<not> spec_grammar (re_sub_spaces ''20240101060000Z'') \<and>
   stored (snd (fst (parse_epg example_env (Some doc_z) True init_state))) =
     [(''ch1'', Element ''programme''
        [(''channel'', ''ch1''), (''start'', ''20240101060000 +0800''), (''stop'', ''20240101070000 +0800'')]
        None [Element ''title'' [] (Some ''Morning'') []])]"
proof -
  have "\<not> spec_grammar (re_sub_spaces ''20240101060000Z'')"
    by (simp add: spec_grammar_def re_sub_spaces_def is_space_def whitespace_def)
  moreover have "elem_findall tree_z ''programme'' =
     [Element ''programme''
        [(''channel'', ''ch1''), (''start'', ''20240101060000Z''), (''stop'', ''20240101070000Z'')]
        None [Element ''title'' [] (Some ''Morning'') []]]"
    by (simp add: tree_z_def elem_findall_def)
  ultimately show ?thesis
    by (simp add: parse_epg_example_init[OF not_blank_examples(4) fromstring_examples(4)]
        parse_root_z fromstring_examples stored_def)
qed

text \<open>
  Why the amended claim speaks of the fingerprint: with a fingerprint that two
  documents share, the second of them gets the output of the first from the cache. Its
  own admissible programme is not in that output.
\<close>

lemma parse_epg_other_document:
  "get_content_hash colliding_env doc_mixed = get_content_hash colliding_env doc_b \<and>
   fromstring colliding_env doc_mixed = Some tree_mixed \<and>
   stored (snd (parse_root colliding_env tree_mixed)) =
     [(''ch1'', Element ''programme''
        [(''channel'', ''ch1''), (''start'', ''20240101060000 +0800''), (''stop'', ''20240101070000 +0800'')]
        None [Element ''title'' [] (Some ''Morning'') []])] \<and>
   stored (snd (fst (parse_epg colliding_env (Some doc_mixed) True
      (snd (parse_epg colliding_env (Some doc_b) True init_state))))) =
     [(''ch1'', Element ''programme''
        [(''channel'', ''ch1''), (''start'', ''20240101070000 +0800''), (''stop'', ''20240101080000 +0800'')]
        None [Element ''title'' [] (Some ''Noon'') [], Element ''desc'' [] (Some ''News'') []])]"
  using parse_epg_colliding[OF not_blank_examples(3), of True]
  by (simp add: colliding_examples fromstring_examples parse_root_colliding parse_root_mixed
      parse_root_b stored_def)

text \<open>
  Claim C6, amended. Every programme of the output was built from a programme element,
  of a well-formed document with the fingerprint of the input, whose \<^verbatim>\<open>start\<close> and
  \<^verbatim>\<open>stop\<close> \<^verbatim>\<open>strptime\<close> accepted. Its own \<^verbatim>\<open>start\<close> and \<^verbatim>\<open>stop\<close> are the wall-clock fields of
  the parsed timestamps: the year as the \<^verbatim>\<open>%Y\<close> of the C library writes it, then two
  digits each for the month, day, hour, minute and second, followed by the characters
  \<^verbatim>\<open> +0800\<close> (a space, then the offset). The parsed offset plays no part: replacing it
  leaves the text as it is.
\<close>

theorem parse_epg_fixed_offset:
  assumes "cache_inv env s"
    and "(k, p) \<in> set (stored (snd (fst (parse_epg env epg_content use_cache s))))"
  shows "\<exists>content content' root'.
           epg_content = Some content \<and>
           get_content_hash env content' = get_content_hash env content \<and>
           fromstring env content' = Some root' \<and>
           (\<not> use_cache \<or> epg_cache s (get_content_hash env content) = None \<or>
            collision_free env content \<longrightarrow> content' = content) \<and>
           (\<exists>e \<in> set (elem_findall root' ''programme'').
              \<exists>start_time stop_time channel_start channel_stop.
                new_programme env e = Some (k, p) \<and>
                elem_get e ''start'' = Some start_time \<and> elem_get e ''stop'' = Some stop_time \<and>
                strptime env (re_sub_spaces start_time) = Some channel_start \<and>
                strptime env (re_sub_spaces stop_time) = Some channel_stop \<and>
                elem_get p ''start'' =
                  Some (strftime_Y env (year channel_start) @
                        pad2 (month channel_start) @ pad2 (day channel_start) @
                        pad2 (hour channel_start) @ pad2 (minute channel_start) @
                        pad2 (second channel_start) @ '' +0800'') \<and>
                elem_get p ''stop'' =
                  Some (strftime_Y env (year channel_stop) @
                        pad2 (month channel_stop) @ pad2 (day channel_stop) @
                        pad2 (hour channel_stop) @ pad2 (minute channel_stop) @
                        pad2 (second channel_stop) @ '' +0800'') \<and>
                (\<forall>off frac. strftime_0800 env (channel_start\<lparr>gmtoff := off, gmtoff_fraction := frac\<rparr>) =
                             strftime_0800 env channel_start) \<and>
                (\<forall>off frac. strftime_0800 env (channel_stop\<lparr>gmtoff := off, gmtoff_fraction := frac\<rparr>) =
                             strftime_0800 env channel_stop))"
proof -
  from assms(2) obtain content where c: "epg_content = Some content"
    by (cases epg_content) (simp_all add: parse_epg_None stored_Nil)
  from assms(2) c have nb: "py_strip content \<noteq> []"
    by (auto simp: parse_epg_blank stored_Nil)
  from assms(2) c have ne: "fst (parse_epg env (Some content) use_cache s) \<noteq> ([], [])"
    by (auto simp: stored_Nil)
  from parse_epg_source[OF assms(1) nb, of use_cache] ne
  have "\<exists>content' root'.
      get_content_hash env content' = get_content_hash env content \<and>
      fromstring env content' = Some root' \<and>
      (\<not> use_cache \<or> epg_cache s (get_content_hash env content) = None \<or>
       collision_free env content \<longrightarrow> content' = content) \<and>
      fst (parse_epg env (Some content) use_cache s) = parse_root env root'"
    by (elim disjE conjE exE) (simp, blast)
  then obtain content' root' where
    h: "get_content_hash env content' = get_content_hash env content" and
    f: "fromstring env content' = Some root'" and
    same: "\<not> use_cache \<or> epg_cache s (get_content_hash env content) = None \<or>
           collision_free env content \<longrightarrow> content' = content" and
    r: "fst (parse_epg env (Some content) use_cache s) = parse_root env root'"
    by blast
  from assms(2) c r have "(k, p) \<in> set (stored (snd (parse_root env root')))"
    by simp
  with parse_root_stored[of env root'] obtain e where
    e: "e \<in> set (elem_findall root' ''programme'')" "new_programme env e = Some (k, p)"
    by auto
  from new_programme_times[OF e(2)] obtain start_time stop_time channel_start channel_stop where
    t: "elem_get e ''start'' = Some start_time" "elem_get e ''stop'' = Some stop_time"
       "strptime env (re_sub_spaces start_time) = Some channel_start"
       "strptime env (re_sub_spaces stop_time) = Some channel_stop"
       "elem_get p ''start'' = Some (strftime_0800 env channel_start)"
       "elem_get p ''stop'' = Some (strftime_0800 env channel_stop)"
    by blast
  have indep: "strftime_0800 env (dt\<lparr>gmtoff := off, gmtoff_fraction := frac\<rparr>) = strftime_0800 env dt"
    for dt off frac
    by (simp add: strftime_0800_def wall_clock_def)
  have w: "strftime_0800 env dt =
      strftime_Y env (year dt) @ pad2 (month dt) @ pad2 (day dt) @
      pad2 (hour dt) @ pad2 (minute dt) @ pad2 (second dt) @ '' +0800''" for dt
    by (simp add: strftime_0800_def wall_clock_def)
  from t(5,6) have out:
    "elem_get p ''start'' =
       Some (strftime_Y env (year channel_start) @
             pad2 (month channel_start) @ pad2 (day channel_start) @
             pad2 (hour channel_start) @ pad2 (minute channel_start) @
             pad2 (second channel_start) @ '' +0800'')"
    "elem_get p ''stop'' =
       Some (strftime_Y env (year channel_stop) @
             pad2 (month channel_stop) @ pad2 (day channel_stop) @
             pad2 (hour channel_stop) @ pad2 (minute channel_stop) @
             pad2 (second channel_stop) @ '' +0800'')"
    by (simp_all only: w)
  have "\<exists>e \<in> set (elem_findall root' ''programme'').
      \<exists>start_time stop_time channel_start channel_stop.
        new_programme env e = Some (k, p) \<and>
        elem_get e ''start'' = Some start_time \<and> elem_get e ''stop'' = Some stop_time \<and>
        strptime env (re_sub_spaces start_time) = Some channel_start \<and>
        strptime env (re_sub_spaces stop_time) = Some channel_stop \<and>
        elem_get p ''start'' =
          Some (strftime_Y env (year channel_start) @
                pad2 (month channel_start) @ pad2 (day channel_start) @
                pad2 (hour channel_start) @ pad2 (minute channel_start) @
                pad2 (second channel_start) @ '' +0800'') \<and>
        elem_get p ''stop'' =
          Some (strftime_Y env (year channel_stop) @
                pad2 (month channel_stop) @ pad2 (day channel_stop) @
                pad2 (hour channel_stop) @ pad2 (minute channel_stop) @
                pad2 (second channel_stop) @ '' +0800'') \<and>
        (\<forall>off frac. strftime_0800 env (channel_start\<lparr>gmtoff := off, gmtoff_fraction := frac\<rparr>) =
                     strftime_0800 env channel_start) \<and>
        (\<forall>off frac. strftime_0800 env (channel_stop\<lparr>gmtoff := off, gmtoff_fraction := frac\<rparr>) =
                     strftime_0800 env channel_stop)"
    by (intro bexI[OF _ e(1)] exI[of _ start_time] exI[of _ stop_time]
        exI[of _ channel_start] exI[of _ channel_stop] conjI e(2) t(1-4) out allI indep)
  with c h f same show ?thesis
    by blast
qed

theorem parse_epg_fixed_offset_witness:
  "cache_inv example_env init_state \<and>
   stored (snd (fst (parse_epg example_env (Some doc_b) True init_state))) =
     [(''ch1'', Element ''programme''
        [(''channel'', ''ch1''), (''start'', ''20240101070000 +0800''), (''stop'', ''20240101080000 +0800'')]
        None [Element ''title'' [] (Some ''Noon'') [], Element ''desc'' [] (Some ''News'') []])] \<and>
   strptime example_env (re_sub_spaces ''20240101070000 -0500'') =
     Some \<lparr>year = 2024, month = 1, day = 1, hour = 7, minute = 0, second = 0,
           gmtoff = - 18000, gmtoff_fraction = 0\<rparr> \<and>
   strftime_Y example_env 2024 @ pad2 1 @ pad2 1 @ pad2 7 @ pad2 0 @ pad2 0 @ '' +0800'' =
     ''20240101070000 +0800''"
proof -
  let ?p = "Element ''programme''
        [(''channel'', ''ch1''), (''start'', ''20240101070000 +0800''), (''stop'', ''20240101080000 +0800'')]
        None [Element ''title'' [] (Some ''Noon'') [], Element ''desc'' [] (Some ''News'') []]"
  let ?s' = "\<lparr>epg_cache = [doc_b \<mapsto> parse_root example_env tree_b], parse_count = 1\<rparr>"
  have first: "parse_epg example_env (Some doc_b) True init_state =
      (([(''ch1'', Some ''B Name'')], [(''ch1'', [?p])]), ?s')"
    using parse_epg_example_init[OF not_blank_examples(2) fromstring_examples(2)]
    by (simp add: parse_root_b)
  have mem: "(''ch1'', ?p) \<in> set (stored (snd (fst (parse_epg example_env (Some doc_b) True init_state))))"
    by (simp add: first stored_def)
  have t: "strptime example_env (re_sub_spaces ''20240101070000 -0500'') =
     Some \<lparr>year = 2024, month = 1, day = 1, hour = 7, minute = 0, second = 0,
           gmtoff = - 18000, gmtoff_fraction = 0\<rparr>"
    by (simp add: example_env_def re_sub_spaces_def is_space_def whitespace_def strptime_examples)
  have w: "strftime_Y example_env 2024 @ pad2 1 @ pad2 1 @ pad2 7 @ pad2 0 @ pad2 0 @ '' +0800'' =
     ''20240101070000 +0800''"
    by (simp add: example_env_def glibc_Y_examples pad2_def digit_char_def)
  from parse_epg_fixed_offset[OF cache_inv_init mem]
  show ?thesis
    using first t w
    by (simp add: cache_inv_init stored_def)
qed

text \<open>
  The claim as stated has fourteen digits before the offset. A start in the year 999,
  written \<^verbatim>\<open>0999\<close> as \<^verbatim>\<open>strptime\<close> requires, is accepted, and with glibc \<^verbatim>\<open>strftime\<close> writes
  the year back as \<^verbatim>\<open>999\<close>: thirteen digits, which is not the form \<^verbatim>\<open>YYYYMMDDHHMMSS\<close> and
  not the digits of the source.
\<close>

theorem parse_epg_fixed_offset_counterexample:
  "fromstring example_env doc_y999 = Some tree_y999 \<and>
   elem_findall tree_y999 ''programme'' =
     [Element ''programme''
        [(''channel'', ''ch1''), (''start'', ''09990101000000+0000''), (''stop'', ''09990101010000+0000'')]
        None [Element ''title'' [] (Some ''Old'') []]] \<and>
   strptime example_env (re_sub_spaces ''09990101000000+0000'') =
     Some \<lparr>year = 999, month = 1, day = 1, hour = 0, minute = 0, second = 0,
           gmtoff = 0, gmtoff_fraction = 0\<rparr> \<and>
   stored (snd (fst (parse_epg example_env (Some doc_y999) True init_state))) =
     [(''ch1'', Element ''programme''
        [(''channel'', ''ch1''), (''start'', ''9990101000000 +0800''), (''stop'', ''9990101010000 +0800'')]
        None [Element ''title'' [] (Some ''Old'') []])] \<and>
   length ''9990101000000'' = 13 \<and>
   \<not> spec_grammar (re_sub_spaces ''9990101000000 +0800'')"
proof -
  have "strptime example_env (re_sub_spaces ''09990101000000+0000'') =
     Some \<lparr>year = 999, month = 1, day = 1, hour = 0, minute = 0, second = 0,
           gmtoff = 0, gmtoff_fraction = 0\<rparr>"
    by (simp add: example_env_def re_sub_spaces_def is_space_def whitespace_def strptime_y999_0000)
  moreover have "\<not> spec_grammar (re_sub_spaces ''9990101000000 +0800'')"
    by (simp add: spec_grammar_def re_sub_spaces_def is_space_def whitespace_def)
  moreover have "elem_findall tree_y999 ''programme'' =
     [Element ''programme''
        [(''channel'', ''ch1''), (''start'', ''09990101000000+0000''), (''stop'', ''09990101010000+0000'')]
        None [Element ''title'' [] (Some ''Old'') []]]"
    by (simp add: tree_y999_def elem_findall_def)
  ultimately show ?thesis
    by (simp add: parse_epg_example_init[OF not_blank_examples(8) fromstring_examples(8)]
        parse_root_y999 fromstring_examples stored_def)
qed

section \<open>The guide parser and its cache\<close>

text \<open>
  Claim C3, amended. Whatever the cache holds of earlier parses, \<^verbatim>\<open>parse_epg\<close> returns an
  empty channel table and an empty programme table for \<^verbatim>\<open>None\<close> and for a text of
  whitespace only. For a text that is not well-formed markup it returns them too,
  unless the call goes through the cache and the cache holds a result under the
  fingerprint of the text: that result, stored for a well-formed document with the
  same fingerprint, is returned then. In every case the cache is left as it was.
  \<open>parse_epg\<close> is a total function with no error result: the \<^verbatim>\<open>ParseError\<close> of the parser
  is the branch \<open>None\<close> of \<open>fromstring\<close>.
\<close>

theorem parse_epg_blank_or_malformed:
  assumes "cache_inv env s"
    and "epg_content = None \<or>
         (\<exists>content. epg_content = Some content \<and>
            ((\<forall>c \<in> set content. is_space c) \<or> fromstring env content = None))"
  shows "epg_cache (snd (parse_epg env epg_content use_cache s)) = epg_cache s \<and>
         (fst (parse_epg env epg_content use_cache s) = ([], []) \<or>
          (\<exists>content content' root'.
             epg_content = Some content \<and> (\<exists>c \<in> set content. \<not> is_space c) \<and>
             fromstring env content = None \<and> use_cache \<and>
             content' \<noteq> content \<and>
             get_content_hash env content' = get_content_hash env content \<and>
             fromstring env content' = Some root' \<and>
             epg_cache s (get_content_hash env content) = Some (parse_root env root') \<and>
             fst (parse_epg env epg_content use_cache s) = parse_root env root'))"
proof (cases epg_content)
  case None
  then show ?thesis by (simp add: parse_epg_None)
next
  case (Some content)
  show ?thesis
  proof (cases "py_strip content = []")
    case True
    with Some show ?thesis by (simp add: parse_epg_blank)
  next
    case False
    with assms(2) Some have bad: "fromstring env content = None"
      by (auto simp: py_strip_empty_iff)
    from False have ns: "\<exists>c \<in> set content. \<not> is_space c"
      by (auto simp: py_strip_empty_iff)
    have cache: "epg_cache (snd (parse_epg env epg_content use_cache s)) = epg_cache s"
      unfolding Some using False bad by (auto simp: parse_epg_def Let_def split: option.splits)
    from parse_epg_source[OF assms(1) False, of use_cache]
    have "fst (parse_epg env (Some content) use_cache s) = ([], []) \<or>
      (\<exists>content' root'.
         get_content_hash env content' = get_content_hash env content \<and>
         fromstring env content' = Some root' \<and> use_cache \<and>
         epg_cache s (get_content_hash env content) = Some (parse_root env root') \<and>
         fst (parse_epg env (Some content) use_cache s) = parse_root env root')"
      using bad by blast
    then show ?thesis
    proof (elim disjE exE conjE)
      assume "fst (parse_epg env (Some content) use_cache s) = ([], [])"
      then have "fst (parse_epg env epg_content use_cache s) = ([], [])"
        by (simp add: Some)
      then show ?thesis
        by (rule conjI[OF cache disjI1])
    next
      fix content' root'
      assume h: "get_content_hash env content' = get_content_hash env content"
        and f: "fromstring env content' = Some root'" and u: use_cache
        and c: "epg_cache s (get_content_hash env content) = Some (parse_root env root')"
        and r: "fst (parse_epg env (Some content) use_cache s) = parse_root env root'"
      from f bad have d: "content' \<noteq> content" by auto
      from r have r': "fst (parse_epg env epg_content use_cache s) = parse_root env root'"
        by (simp add: Some)
      have "\<exists>content content' root'.
             epg_content = Some content \<and> (\<exists>c \<in> set content. \<not> is_space c) \<and>
             fromstring env content = None \<and> use_cache \<and>
             content' \<noteq> content \<and>
             get_content_hash env content' = get_content_hash env content \<and>
             fromstring env content' = Some root' \<and>
             epg_cache s (get_content_hash env content) = Some (parse_root env root') \<and>
             fst (parse_epg env epg_content use_cache s) = parse_root env root'"
        using Some ns bad u d h f c r' by blast
      then show ?thesis
        by (rule conjI[OF cache disjI2])
    qed
  qed
qed

theorem parse_epg_blank_or_malformed_witness:
  "cache_inv example_env init_state \<and>
   fromstring example_env doc_unclosed = None \<and>
   fst (parse_epg example_env (Some doc_unclosed) True init_state) = ([], []) \<and>
   fst (parse_epg example_env (Some [CHR 0x20, CHR 0x0A, CHR 0xA0, CHR 0x09]) True init_state) = ([], []) \<and>
   fst (parse_epg example_env None True init_state) = ([], [])"
proof -
  have inv: "cache_inv example_env init_state"
    by (rule cache_inv_init)
  have bad: "fromstring example_env doc_unclosed = None"
    by (rule fromstring_examples)
  have "fst (parse_epg example_env (Some doc_unclosed) True init_state) = ([], [])"
    using parse_epg_blank_or_malformed[OF inv, of "Some doc_unclosed" True] bad
    by (simp add: init_state_def)
  moreover have "fst (parse_epg example_env (Some [CHR 0x20, CHR 0x0A, CHR 0xA0, CHR 0x09]) True init_state) = ([], [])"
    using parse_epg_blank_or_malformed[OF inv, of "Some [CHR 0x20, CHR 0x0A, CHR 0xA0, CHR 0x09]" True]
    by (simp add: is_space_def whitespace_def)
  moreover have "fst (parse_epg example_env None True init_state) = ([], [])"
    using parse_epg_blank_or_malformed[OF inv, of None True] by simp
  ultimately show ?thesis
    using inv bad by simp
qed

text \<open>
  The claim as stated fails for a text that is not well-formed when the cache holds a
  result under its fingerprint: the check of the cache comes before the parser. Here a
  well-formed document is parsed first, and the unclosed one has the same fingerprint.
\<close>

theorem parse_epg_blank_or_malformed_counterexample:
  "fromstring colliding_env doc_unclosed = None \<and>
   py_strip doc_unclosed \<noteq> [] \<and>
   get_content_hash colliding_env doc_unclosed = get_content_hash colliding_env doc_b \<and>
   fst (parse_epg colliding_env (Some doc_b) True init_state) =
     ([(''ch1'', Some ''B Name'')],
      [(''ch1'', [Element ''programme''
         [(''channel'', ''ch1''), (''start'', ''20240101070000 +0800''), (''stop'', ''20240101080000 +0800'')]
         None [Element ''title'' [] (Some ''Noon'') [], Element ''desc'' [] (Some ''News'') []]])]) \<and>
   fst (parse_epg colliding_env (Some doc_unclosed) True
          (snd (parse_epg colliding_env (Some doc_b) True init_state))) =
     ([(''ch1'', Some ''B Name'')],
      [(''ch1'', [Element ''programme''
         [(''channel'', ''ch1''), (''start'', ''20240101070000 +0800''), (''stop'', ''20240101080000 +0800'')]
         None [Element ''title'' [] (Some ''Noon'') [], Element ''desc'' [] (Some ''News'') []]])])"
  using parse_epg_colliding[OF not_blank_examples(7), of True]
  by (simp add: colliding_examples fromstring_examples parse_root_colliding parse_root_b
      not_blank_examples)

text \<open>
  Claim C4, amended. For a non-blank document that parses as well-formed markup, a
  second call with the same text returns the result of the first and leaves the state
  as the first call left it: the cache holds that result under the fingerprint, and
  the parser ran once if the fingerprint was new and not at all if it was cached.
\<close>

theorem parse_epg_idempotent:
  assumes "py_strip content \<noteq> []" "fromstring env content = Some root"
    and "parse_epg env (Some content) True s = (result, s')"
  shows "parse_epg env (Some content) True s' = (result, s') \<and>
         epg_cache s' (get_content_hash env content) = Some result \<and>
         parse_count s' = (if epg_cache s (get_content_hash env content) = None
                           then Suc (parse_count s) else parse_count s)"
proof (cases "epg_cache s (get_content_hash env content)")
  case None
  from assms(3) have r: "result = parse_root env root"
    and s': "s' = s\<lparr>parse_count := Suc (parse_count s),
        epg_cache := (epg_cache s)(get_content_hash env content \<mapsto> parse_root env root)\<rparr>"
    by (auto simp: parse_epg_miss_parsed[OF assms(1) None assms(2)])
  have "epg_cache s' (get_content_hash env content) = Some result"
    by (simp add: r s')
  with assms(1) None s' show ?thesis
    by (simp add: parse_epg_hit)
next
  case (Some cached)
  with assms(1,3) have "result = cached" "s' = s"
    by (simp_all add: parse_epg_hit)
  with assms(1) Some show ?thesis
    by (simp add: parse_epg_hit)
qed

theorem parse_epg_idempotent_witness:
  "py_strip doc_a \<noteq> [] \<and> fromstring example_env doc_a = Some tree_a \<and>
   fst (parse_epg example_env (Some doc_a) True
          (snd (parse_epg example_env (Some doc_a) True init_state))) =
     fst (parse_epg example_env (Some doc_a) True init_state) \<and>
   parse_count (snd (parse_epg example_env (Some doc_a) True init_state)) = 1 \<and>
   parse_count (snd (parse_epg example_env (Some doc_a) True
          (snd (parse_epg example_env (Some doc_a) True init_state)))) = 1"
proof -
  obtain result s' where first: "parse_epg example_env (Some doc_a) True init_state = (result, s')"
    by (cases "parse_epg example_env (Some doc_a) True init_state")
  from parse_epg_idempotent[OF not_blank_examples(1) fromstring_examples(1) first]
  show ?thesis
    using first by (simp add: not_blank_examples fromstring_examples init_state_def)
qed

text \<open>
  The claim as stated fails on a document that is not well-formed: nothing is cached
  for it, so the second call runs the parser again.
\<close>

theorem parse_epg_idempotent_counterexample:
  "fromstring example_env doc_unclosed = None \<and>
   parse_count (snd (parse_epg example_env (Some doc_unclosed) True
          (snd (parse_epg example_env (Some doc_unclosed) True init_state)))) = 2"
  by (simp add: parse_epg_miss_malformed not_blank_examples fromstring_examples init_state_def)

text \<open>
  Claim C5, amended. For a non-blank document whose fingerprint is not cached, a call
  through the cache runs the parser once. When the document is well-formed the result
  is stored under the fingerprint and returned; when it is not, the empty result is
  returned and the cache is left as it was.
\<close>

theorem parse_epg_store_on_miss:
  assumes "py_strip content \<noteq> []" "epg_cache s (get_content_hash env content) = None"
  shows "parse_epg env (Some content) True s =
           (case fromstring env content of
              Some root \<Rightarrow>
                (parse_root env root,
                 s\<lparr>parse_count := Suc (parse_count s),
                   epg_cache := (epg_cache s)(get_content_hash env content \<mapsto> parse_root env root)\<rparr>)
            | None \<Rightarrow> (([], []), s\<lparr>parse_count := Suc (parse_count s)\<rparr>))"
  using assms by (simp add: parse_epg_def Let_def split: option.splits)

theorem parse_epg_store_on_miss_witness:
  "py_strip doc_a \<noteq> [] \<and> epg_cache init_state (get_content_hash example_env doc_a) = None \<and>
   fst (parse_epg example_env (Some doc_a) True init_state) = parse_root example_env tree_a \<and>
   epg_cache (snd (parse_epg example_env (Some doc_a) True init_state))
     (get_content_hash example_env doc_a) = Some (parse_root example_env tree_a)"
proof -
  have miss: "epg_cache init_state (get_content_hash example_env doc_a) = None"
    by (simp add: init_state_def)
  from parse_epg_store_on_miss[OF not_blank_examples(1) miss] show ?thesis
    using miss by (simp add: not_blank_examples fromstring_examples)
qed

text \<open>
  The claim as stated fails on a document that is not well-formed: after its first
  parse the cache has no entry for its fingerprint.
\<close>

theorem parse_epg_store_on_miss_counterexample:
  "fromstring example_env doc_unclosed = None \<and>
   epg_cache init_state (get_content_hash example_env doc_unclosed) = None \<and>
   epg_cache (snd (parse_epg example_env (Some doc_unclosed) True init_state))
     (get_content_hash example_env doc_unclosed) = None"
  by (simp add: parse_epg_miss_malformed not_blank_examples fromstring_examples init_state_def)

section \<open>Fetching\<close>

text \<open>
  Claim C8. When no request is interrupted by a \<^verbatim>\<open>BaseException\<close> outside
  \<^verbatim>\<open>Exception\<close>, \<^verbatim>\<open>fetch_all\<close> returns one entry per locator, in the order of the
  locators: the text of the response where the request succeeds, \<^verbatim>\<open>None\<close> where it
  fails by a client error, a timeout, a status of 400 or more or any other exception.
  No failure reaches the caller.
\<close>

theorem fetch_all_isolated:
  assumes "\<forall>i < length urls. \<not> interrupted (net i (urls ! i))"
  shows "\<exists>results. fetch_all net urls = Inr results \<and> length results = length urls \<and>
           (\<forall>i < length urls. results ! i = fetched (net i (urls ! i)))"
proof -
  let ?results = "map (\<lambda>i. fetched (net i (urls ! i))) [0..<length urls]"
  have "map (\<lambda>(i, url). fetch_epg (net i url)) (enumerate 0 urls) =
        map (\<lambda>i. fetch_epg (net i (urls ! i))) [0..<length urls]"
    by (simp add: enumerate_nth_map)
  also have "\<dots> = map (\<lambda>i. Inr (fetched (net i (urls ! i)))) [0..<length urls]"
    using assms by (simp add: fetch_epg_cases)
  finally have "fetch_all net urls = Inr ?results"
    by (simp only: fetch_all_def gather_Inr)
  then show ?thesis by simp
qed

theorem fetch_all_isolated_witness:
  "\<not> interrupted (example_net 0 (example_urls ! 0)) \<and>
   \<not> interrupted (example_net 1 (example_urls ! 1)) \<and>
   \<not> interrupted (example_net 2 (example_urls ! 2)) \<and>
   \<not> interrupted (example_net 3 (example_urls ! 3)) \<and>
   \<not> interrupted (example_net 4 (example_urls ! 4)) \<and>
   \<not> interrupted (example_net 5 (example_urls ! 5)) \<and>
   fetch_all example_net example_urls = Inr [Some doc_a, None, None, None, None, Some doc_b]"
proof -
  have ni: "\<not> interrupted (example_net i url)" for i url
    by (simp add: interrupted_def example_net_def)
  have ok: "\<forall>i < length example_urls. \<not> interrupted (example_net i (example_urls ! i))"
    by (simp add: ni)
  from fetch_all_isolated[of example_urls example_net] ok obtain results where
    r: "fetch_all example_net example_urls = Inr results" "length results = length example_urls"
      "\<forall>i < length example_urls. results ! i = fetched (example_net i (example_urls ! i))"
    by blast
  have "results = [Some doc_a, None, None, None, None, Some doc_b]"
    using r(2,3) by (intro nth_equalityI) (simp_all add: example_urls_def all_less_6 fetched_def example_net_def)
  with r(1) show ?thesis
    by (simp add: ni)
qed

section \<open>Merging\<close>

text \<open>
  Claim C7. The aggregate channel table maps an id to the display name that the last
  source defining it gives, and to nothing when no source defines it. (A source with an
  empty channel table is skipped by the loop; it defines no id.)
\<close>

theorem merge_last_write_wins:
  assumes "\<forall>r \<in> set results. distinct (dict_keys (fst r))"
  shows "dict_get (fst (merge_results results)) channel_id =
           (let defining = filter (\<lambda>r. channel_id \<in> set (dict_keys (fst r))) results
            in if defining = [] then None else dict_get (fst (last defining)) channel_id)"
  using assms
proof (induction results rule: rev_induct)
  case Nil
  then show ?case by (simp add: merge_results_def dict_get_def)
next
  case (snoc r results)
  then show ?case
    by (simp add: merge_results_snoc dict_get_merge_step Let_def)
qed

theorem merge_last_write_wins_witness:
  "distinct (dict_keys (fst (parse_root example_env tree_a))) \<and>
   distinct (dict_keys (fst (parse_root example_env tree_b))) \<and>
   dict_get (fst (parse_root example_env tree_a)) ''ch1'' = Some (Some ''A Name'') \<and>
   dict_get (fst (parse_root example_env tree_b)) ''ch1'' = Some (Some ''B Name'') \<and>
   dict_get (fst (merge_results [parse_root example_env tree_a, parse_root example_env tree_b]))
     ''ch1'' = Some (Some ''B Name'') \<and>
   dict_get (fst (merge_results [parse_root example_env tree_b, parse_root example_env tree_a]))
     ''ch1'' = Some (Some ''A Name'')"
proof -
  have d: "\<forall>r \<in> set [parse_root example_env tree_a, parse_root example_env tree_b].
             distinct (dict_keys (fst r))"
    "\<forall>r \<in> set [parse_root example_env tree_b, parse_root example_env tree_a].
             distinct (dict_keys (fst r))"
    by (simp_all add: parse_root_a parse_root_b dict_keys_def)
  show ?thesis
    using merge_last_write_wins[OF d(1), of "''ch1''"] merge_last_write_wins[OF d(2), of "''ch1''"]
    by (simp add: parse_root_a parse_root_b dict_keys_def dict_get_def)
qed

text \<open>
  Claim C2, amended. The aggregate programme list of a channel id is the concatenation,
  in source order, of the lists that the sources with a non-empty channel table hold
  under that id: appended, never replaced, nothing removed. A source whose channel table
  is empty contributes no programme.
\<close>

theorem merge_programme_union:
  assumes "\<forall>r \<in> set results. distinct (dict_keys (snd r))"
  shows "dd_get (snd (merge_results results)) channel_id =
           concat (map (\<lambda>r. dd_get (snd r) channel_id) (filter (\<lambda>r. fst r \<noteq> []) results))"
  using assms
proof (induction results rule: rev_induct)
  case Nil
  then show ?case by (simp add: merge_results_def dd_get_def)
next
  case (snoc r results)
  then show ?case
    by (simp add: merge_results_snoc dd_get_merge_step)
qed

theorem merge_programme_union_witness:
  "distinct (dict_keys (snd (parse_root example_env tree_a))) \<and>
   distinct (dict_keys (snd (parse_root example_env tree_b))) \<and>
   dd_get (snd (merge_results [parse_root example_env tree_a, parse_root example_env tree_b])) ''ch1'' =
     dd_get (snd (parse_root example_env tree_a)) ''ch1'' @
     dd_get (snd (parse_root example_env tree_b)) ''ch1'' \<and>
   length (dd_get (snd (merge_results [parse_root example_env tree_a, parse_root example_env tree_b]))
     ''ch1'') = 2"
proof -
  have d: "\<forall>r \<in> set [parse_root example_env tree_a, parse_root example_env tree_b].
             distinct (dict_keys (snd r))"
    by (simp add: parse_root_a parse_root_b dict_keys_def)
  show ?thesis
    using merge_programme_union[OF d, of "''ch1''"]
    by (simp add: parse_root_a parse_root_b dict_keys_def dd_get_def)
qed

text \<open>
  The claim as stated fails on a source that has programmes and no channel: the loop
  skips it, and its programme is not in the aggregate.
\<close>

theorem merge_programme_union_counterexample:
  "length (dd_get (snd (parse_root example_env tree_nochannel)) ''c1'') = 1 \<and>
   dd_get (snd (merge_results [parse_root example_env tree_nochannel])) ''c1'' = []"
  by (simp add: parse_root_nochannel merge_results_def merge_step_def dd_get_def)

section \<open>Keys and channel ids\<close>

text \<open>
  Claim C9. Every programme is stored under the value of its own \<^verbatim>\<open>channel\<close>
  attribute: in the result of \<^verbatim>\<open>parse_epg\<close>, whatever the cache holds of earlier parses;
  in the aggregate that the loop of \<^verbatim>\<open>main\<close> builds from a consistent aggregate (the
  empty one to begin with); and in the document of \<^verbatim>\<open>write_to_xml\<close>, where setting the
  \<^verbatim>\<open>channel\<close> attribute of a programme to its key changes nothing, so the programmes
  written are the stored ones, each with its key as channel.
\<close>

theorem programme_keys_consistent:
  assumes "cache_inv env s" "keys_consistent all_programmes"
  shows "keys_consistent (snd (fst (parse_epg env epg_content use_cache s))) \<and>
         keys_consistent (snd (fst (main_loop env epg_contents (all_channels, all_programmes) s))) \<and>
         children (write_to_xml current_time all_channels all_programmes) =
           map channel_elem all_channels @ map snd (stored all_programmes) \<and>
         (\<forall>(k, prog) \<in> set (stored all_programmes).
            elem_set prog ''channel'' k = prog \<and> elem_get prog ''channel'' = Some k)"
proof -
  have "keys_consistent (snd (fst (main_loop env epg_contents (all_channels, all_programmes) s)))"
    using main_loop_keys_consistent[OF assms(1), of "(all_channels, all_programmes)" epg_contents]
      assms(2) by simp
  moreover have "children (write_to_xml current_time all_channels all_programmes) =
           map channel_elem all_channels @ map snd (stored all_programmes)"
    by (simp add: write_to_xml_def programme_elems_consistent[OF assms(2)])
  moreover have "\<forall>(k, prog) \<in> set (stored all_programmes).
            elem_set prog ''channel'' k = prog \<and> elem_get prog ''channel'' = Some k"
    using assms(2) by (auto simp: keys_consistent_stored elem_set_same)
  ultimately show ?thesis
    using keys_consistent_parse_epg[OF assms(1)] by simp
qed

theorem programme_keys_consistent_witness:
  "cache_inv example_env init_state \<and> keys_consistent [] \<and>
   keys_consistent (snd (fst (parse_epg example_env (Some doc_a) True init_state))) \<and>
   keys_consistent (snd (fst (main_loop example_env [Some doc_a, None, Some doc_b] ([], []) init_state))) \<and>
   children (write_to_xml ''20240102000000 +0800''
     (fst (fst (main_loop example_env [Some doc_a, None, Some doc_b] ([], []) init_state)))
     (snd (fst (main_loop example_env [Some doc_a, None, Some doc_b] ([], []) init_state)))) =
     [Element ''channel'' [(''id'', ''ch1'')] None
        [Element ''display-name'' [(''lang'', ''zh'')] (Some ''B Name'') []],
      Element ''programme''
        [(''channel'', ''ch1''), (''start'', ''20240101060000 +0800''), (''stop'', ''20240101070000 +0800'')]
        None [Element ''title'' [] (Some ''Morning'') []],
      Element ''programme''
        [(''channel'', ''ch1''), (''start'', ''20240101070000 +0800''), (''stop'', ''20240101080000 +0800'')]
        None [Element ''title'' [] (Some ''Noon'') [], Element ''desc'' [] (Some ''News'') []]]"
proof -
  let ?agg = "fst (main_loop example_env [Some doc_a, None, Some doc_b] ([], []) init_state)"
  from programme_keys_consistent[of example_env init_state "[]" "Some doc_a" True
      "[Some doc_a, None, Some doc_b]" "[]" "[]", OF cache_inv_init keys_consistent_Nil]
  have stage: "keys_consistent (snd (fst (parse_epg example_env (Some doc_a) True init_state)))"
    "keys_consistent (snd ?agg)"
    by simp_all
  from programme_keys_consistent[of example_env init_state "snd ?agg" None True "[]"
      "fst ?agg" "''20240102000000 +0800''", OF cache_inv_init stage(2)]
  have "children (write_to_xml ''20240102000000 +0800'' (fst ?agg) (snd ?agg)) =
          map channel_elem (fst ?agg) @ map snd (stored (snd ?agg))"
    by simp
  then show ?thesis
    using stage
    by (simp only: main_loop_a_b) (simp add: cache_inv_init keys_consistent_Nil channel_elem_def stored_def)
qed

text \<open>
  Claim C10. A document with a channel \<^verbatim>\<open>c1\<close> and a programme of channel \<^verbatim>\<open>c2\<close>: the
  programme is admitted by the parser, merged into the aggregate and written to the
  output document, though the channel table has no \<^verbatim>\<open>c2\<close>.
\<close>

theorem programmes_not_validated:
  "fst (parse_epg example_env (Some doc_orphan) True init_state) =
     ([(''c1'', Some [])],
      [(''c2'', [Element ''programme''
         [(''channel'', ''c2''), (''start'', ''20240101060000 +0800''), (''stop'', ''20240101070000 +0800'')]
         None [Element ''title'' [] (Some ''Late'') []]])]) \<and>
   fst (main_loop example_env [Some doc_orphan] ([], []) init_state) =
     ([(''c1'', Some [])],
      [(''c2'', [Element ''programme''
         [(''channel'', ''c2''), (''start'', ''20240101060000 +0800''), (''stop'', ''20240101070000 +0800'')]
         None [Element ''title'' [] (Some ''Late'') []]])]) \<and>
   main_output example_env ''20240102000000 +0800'' [Some doc_orphan] =
     Some (Element ''tv'' [(''date'', ''20240102000000 +0800'')] None
       [Element ''channel'' [(''id'', ''c1'')] None
          [Element ''display-name'' [(''lang'', ''zh'')] (Some []) []],
        Element ''programme''
          [(''channel'', ''c2''), (''start'', ''20240101060000 +0800''), (''stop'', ''20240101070000 +0800'')]
          None [Element ''title'' [] (Some ''Late'') []]]) \<and>
   dict_keys (fst (fst (main_loop example_env [Some doc_orphan] ([], []) init_state))) = [''c1''] \<and>
   dict_keys (snd (fst (main_loop example_env [Some doc_orphan] ([], []) init_state))) = [''c2'']"
proof -
  have agg: "fst (main_loop example_env [Some doc_orphan] ([], []) init_state) =
     ([(''c1'', Some [])],
      [(''c2'', [Element ''programme''
         [(''channel'', ''c2''), (''start'', ''20240101060000 +0800''), (''stop'', ''20240101070000 +0800'')]
         None [Element ''title'' [] (Some ''Late'') []]])])"
    by (subst main_loop_example)
       (simp add: not_blank_examples fromstring_examples
          parse_root_orphan merge_step_def dd_extend_def dd_get_def)
  obtain s where run: "main_loop example_env [Some doc_orphan] ([], []) init_state =
     (([(''c1'', Some [])],
       [(''c2'', [Element ''programme''
          [(''channel'', ''c2''), (''start'', ''20240101060000 +0800''), (''stop'', ''20240101070000 +0800'')]
          None [Element ''title'' [] (Some ''Late'') []]])]), s)"
    using agg by (cases "main_loop example_env [Some doc_orphan] ([], []) init_state") simp
  have out: "main_output example_env ''20240102000000 +0800'' [Some doc_orphan] =
     Some (Element ''tv'' [(''date'', ''20240102000000 +0800'')] None
       [Element ''channel'' [(''id'', ''c1'')] None
          [Element ''display-name'' [(''lang'', ''zh'')] (Some []) []],
        Element ''programme''
          [(''channel'', ''c2''), (''start'', ''20240101060000 +0800''), (''stop'', ''20240101070000 +0800'')]
          None [Element ''title'' [] (Some ''Late'') []]])"
    unfolding main_output_def run
    by (simp add: write_to_xml_def channel_elem_def programme_elems_def elem_set_def)
  show ?thesis
    unfolding agg out
    by (simp add: parse_epg_example_init[OF not_blank_examples(5) fromstring_examples(5)]
        parse_root_orphan dict_keys_def)
qed

end
